theory Spec2Isabelle
  imports Main "HOL-Library.Char_ord" "HOL-Library.List_Lexorder" "HOL-Library.Multiset"
begin

section \<open>The attendance server (server.js)\<close>

text \<open>
  The server keeps one SQLite table, \<^verbatim>\<open>attendance\<close>, and has three routes that touch it:
  \<^verbatim>\<open>POST /attendance\<close> (lines 57-113), \<^verbatim>\<open>GET /admin\<close> (lines 121-143) and
  \<^verbatim>\<open>GET /download-report\<close> (lines 146-193). Each handler is embedded as a function from
  the request and the state it reads (the table, the temporary file) to the state it leaves
  and the response it sends.

  Strings are byte strings (SQLite stores TEXT as UTF-8 and compares it bytewise under the
  default BINARY collation); the order on \<^typ>\<open>string\<close> is the lexicographic order on bytes.
  A field of a form body or of a query string is a \<^typ>\<open>string option\<close>: \<open>None\<close> is a field
  that was not sent (\<^verbatim>\<open>undefined\<close> in the handler). Repeated fields (arrays) are not
  modelled.
\<close>

subsection \<open>The clock: moment().tz('Asia/Kolkata').format(...)\<close>

text \<open>
  A reading of the clock in the reference zone, and the two formats the handlers ask for:
  \<^verbatim>\<open>YYYY-MM-DD\<close> (each field filled with zeros to its width, and written in full when it
  is longer) and \<^verbatim>\<open>h:mm:ss A\<close> (12-hour clock, hour not padded).
\<close>

record moment =
  m_year :: nat
  m_month :: nat
  m_day :: nat
  m_hour :: nat
  m_minute :: nat
  m_second :: nat

definition digit_char :: "nat \<Rightarrow> char" where
  "digit_char n = ''0123456789'' ! (n mod 10)"

text \<open>The decimal digits of a number, and moment's \<^verbatim>\<open>zeroFill\<close>: at least \<open>w\<close> digits.\<close>

fun decimal :: "nat \<Rightarrow> string" where
  "decimal n = (if n < 10 then [digit_char n] else decimal (n div 10) @ [digit_char n])"

declare decimal.simps [simp del]

definition zeroFill :: "nat \<Rightarrow> nat \<Rightarrow> string" where
  "zeroFill n w = replicate (w - length (decimal n)) (CHR ''0'') @ decimal n"

definition format_date :: "moment \<Rightarrow> string" where
  "format_date m =
     zeroFill (m_year m) 4 @ ''-'' @ zeroFill (m_month m) 2 @ ''-'' @ zeroFill (m_day m) 2"

definition format_time :: "moment \<Rightarrow> string" where
  "format_time m =
     (let h = m_hour m mod 12;
          h12 = (if h = 0 then 12 else h)
      in decimal h12 @ '':'' @ zeroFill (m_minute m) 2 @ '':'' @ zeroFill (m_second m) 2
         @ (if m_hour m < 12 then '' AM'' else '' PM''))"

subsection \<open>The table (lines 33-39)\<close>

text \<open>
  \<^verbatim>\<open>id INTEGER PRIMARY KEY AUTOINCREMENT, employeeName TEXT NOT NULL, date TEXT NOT NULL,
  checkIn TEXT, checkOut TEXT\<close>. The two NOT NULL columns are strings, the two nullable
  ones are options. The table is the list of its rows in insertion order; \<open>seq\<close> is the
  AUTOINCREMENT counter (the largest id handed out so far). Row ids are unbounded integers
  here: the 64-bit limit of SQLite is out of reach of any run.
\<close>

record row =
  row_id :: int
  employeeName :: string
  date :: string
  checkIn :: "string option"
  checkOut :: "string option"

record db =
  rows :: "row list"
  seq :: int

definition empty_db :: db where
  "empty_db = \<lparr>rows = [], seq = 0\<rparr>"

datatype sqlval = SqlNull | SqlText string | SqlInt int

datatype storage_error = SqliteConstraint | SqliteIoError | SqliteError

text \<open>
  How node-sqlite3 binds a JavaScript value to a placeholder: a string is bound as TEXT, and
  \<^verbatim>\<open>undefined\<close> leaves the placeholder unbound, which SQLite reads as NULL.
\<close>

fun bind :: "string option \<Rightarrow> sqlval" where
  "bind None = SqlNull"
| "bind (Some s) = SqlText s"

text \<open>String concatenation with a value that may be \<^verbatim>\<open>undefined\<close>.\<close>

fun js_string :: "string option \<Rightarrow> string" where
  "js_string None = ''undefined''"
| "js_string (Some s) = s"

text \<open>
  Truthiness of a value that is a string, \<^verbatim>\<open>null\<close> or \<^verbatim>\<open>undefined\<close>: only a non-empty
  string is truthy.
\<close>

fun truthy :: "string option \<Rightarrow> bool" where
  "truthy None = False"
| "truthy (Some s) = (s \<noteq> [])"

subsection \<open>The statements\<close>

text \<open>Lines 74 and 98: the statement text is built by concatenating the action.\<close>

definition sqlInsert :: "string \<Rightarrow> string" where
  "sqlInsert action = ''INSERT INTO attendance (employeeName, date, '' @ action @ '') VALUES (?, ?, ?)''"

definition sqlUpdate :: "string \<Rightarrow> string" where
  "sqlUpdate action = ''UPDATE attendance SET '' @ action @ '' = ? WHERE id = ?''"

text \<open>
  \<^verbatim>\<open>SELECT * FROM attendance WHERE employeeName = ? AND date = ?\<close> through \<^verbatim>\<open>db.get\<close>: the
  first matching row in rowid order, or nothing. A NULL parameter equals no value. The
  flag says that the database reported an error (I/O) instead of answering.
\<close>

definition db_get :: "bool \<Rightarrow> db \<Rightarrow> string option \<Rightarrow> string \<Rightarrow> storage_error + row option" where
  "db_get io_err d name day =
     (if io_err then Inl SqliteIoError
      else Inr (find (\<lambda>r. Some (employeeName r) = name \<and> date r = day) (rows d)))"

text \<open>The TEXT columns of the table.\<close>

datatype column = EmployeeName | Date | CheckIn | CheckOut

fun set_column :: "column \<Rightarrow> string \<Rightarrow> row \<Rightarrow> row" where
  "set_column EmployeeName v r = r\<lparr>employeeName := v\<rparr>"
| "set_column Date v r = r\<lparr>date := v\<rparr>"
| "set_column CheckIn v r = r\<lparr>checkIn := Some v\<rparr>"
| "set_column CheckOut v r = r\<lparr>checkOut := Some v\<rparr>"

text \<open>AUTOINCREMENT: one more than the largest id ever used.\<close>

definition next_id :: "db \<Rightarrow> int" where
  "next_id d = fold max (map row_id (rows d)) (seq d) + 1"

text \<open>
  \<^verbatim>\<open>INSERT INTO attendance (employeeName, date, c) VALUES (?, ?, ?)\<close> for \<open>c\<close> one of the two
  time columns: the other time column is left NULL. A NULL in a NOT NULL column is a
  constraint violation, and the table is unchanged.
\<close>

fun insert_row :: "column \<Rightarrow> sqlval list \<Rightarrow> db \<Rightarrow> storage_error + db" where
  "insert_row c [SqlText name, SqlText day, SqlText t] d =
     (let i = next_id d
      in Inr (d\<lparr>rows := rows d @
                [set_column c t \<lparr>row_id = i, employeeName = name, date = day,
                                 checkIn = None, checkOut = None\<rparr>],
              seq := i\<rparr>))"
| "insert_row c ps d = Inl SqliteConstraint"

text \<open>
  \<^verbatim>\<open>UPDATE attendance SET c = ? WHERE id = ?\<close> for \<open>c\<close> a TEXT column: every row with that id
  gets the value; no matching row is no error.
\<close>

fun update_row :: "column \<Rightarrow> sqlval list \<Rightarrow> db \<Rightarrow> storage_error + db" where
  "update_row c [SqlText t, SqlInt i] d =
     Inr (d\<lparr>rows := map (\<lambda>r. if row_id r = i then set_column c t r else r) (rows d)\<rparr>)"
| "update_row c ps d = Inl SqliteError"

text \<open>
  \<^verbatim>\<open>db.run\<close>. SQLite's behaviour is written out for the statement texts below (the INSERT
  naming one of the two time columns, the UPDATE naming one of the four TEXT columns); what
  it does with any other text is the parameter \<open>other\<close> (an arbitrary function of the text,
  the parameters and the table). The flag says that the database reported an I/O error; a
  failed statement leaves the table as it was.
\<close>

type_synonym engine = "string \<Rightarrow> sqlval list \<Rightarrow> db \<Rightarrow> storage_error + db"

definition db_run :: "engine \<Rightarrow> bool \<Rightarrow> string \<Rightarrow> sqlval list \<Rightarrow> db \<Rightarrow> storage_error + db" where
  "db_run other io_err sql ps d =
     (if io_err then Inl SqliteIoError
      else if sql = ''INSERT INTO attendance (employeeName, date, checkIn) VALUES (?, ?, ?)''
        then insert_row CheckIn ps d
      else if sql = ''INSERT INTO attendance (employeeName, date, checkOut) VALUES (?, ?, ?)''
        then insert_row CheckOut ps d
      else if sql = ''UPDATE attendance SET checkIn = ? WHERE id = ?''
        then update_row CheckIn ps d
      else if sql = ''UPDATE attendance SET checkOut = ? WHERE id = ?''
        then update_row CheckOut ps d
      else if sql = ''UPDATE attendance SET employeeName = ? WHERE id = ?''
        then update_row EmployeeName ps d
      else if sql = ''UPDATE attendance SET date = ? WHERE id = ?''
        then update_row Date ps d
      else other sql ps d)"

subsection \<open>Responses\<close>

text \<open>
  A CSV file as csv-writer is asked to write it: the column titles, then for each record
  the values of its columns.
\<close>

record csv_file =
  titles :: "string list"
  records :: "sqlval list list"

text \<open>
  The responses: \<^verbatim>\<open>res.render('success')\<close>, \<^verbatim>\<open>res.render('already', {message})\<close>,
  \<^verbatim>\<open>res.render('admin', {records, startDate, endDate})\<close>, \<^verbatim>\<open>res.status(n).send(text)\<close> and
  \<^verbatim>\<open>res.download(path, filename)\<close> with the content of the file it sent.
\<close>

datatype response =
    RenderSuccess
  | RenderAlready string
  | RenderAdmin "row list" "string option" "string option"
  | SendStatus nat string
  | Download csv_file string

subsection \<open>POST /attendance (lines 57-113)\<close>

text \<open>
  What one request brings: the two body fields, the two readings of the clock (lines 60
  and 61 read it separately) and whether the database fails on the lookup or on the write.
\<close>

record attendance_req =
  body_employeeName :: "string option"
  body_action :: "string option"
  clock_date :: moment
  clock_time :: moment
  get_err :: bool
  run_err :: bool

text \<open>The callback of \<^verbatim>\<open>db.get\<close> (lines 67-112), given what the lookup returned.\<close>

definition on_row :: "engine \<Rightarrow> attendance_req \<Rightarrow> db \<Rightarrow> storage_error + row option \<Rightarrow> db \<times> response" where
  "on_row other req d looked =
     (let employeeName = body_employeeName req;
          action = body_action req;
          date = format_date (clock_date req);
          time = format_time (clock_time req)
      in case looked of
           Inl err \<Rightarrow> (d, SendStatus 500 ''An error occurred while processing your request.'')
         | Inr None \<Rightarrow>
             (case db_run other (run_err req) (sqlInsert (js_string action))
                     [bind employeeName, SqlText date, SqlText time] d of
                Inl err \<Rightarrow> (d, SendStatus 500 ''An error occurred while saving attendance.'')
              | Inr d' \<Rightarrow> (d', RenderSuccess))
         | Inr (Some row) \<Rightarrow>
             if truthy (checkIn row) \<and> truthy (checkOut row)
               then (d, RenderAlready ''You have already checked in and out for today.'')
             else if action = Some ''checkIn'' \<and> truthy (checkIn row)
               then (d, RenderAlready ''You have already checked in for today.'')
             else if action = Some ''checkOut'' \<and> truthy (checkOut row)
               then (d, RenderAlready ''You have already checked out for today.'')
             else
               (case db_run other (run_err req) (sqlUpdate (js_string action))
                       [SqlText time, SqlInt (row_id row)] d of
                  Inl err \<Rightarrow> (d, SendStatus 500 ''An error occurred while updating attendance.'')
                | Inr d' \<Rightarrow> (d', RenderSuccess)))"

definition post_attendance :: "engine \<Rightarrow> attendance_req \<Rightarrow> db \<Rightarrow> db \<times> response" where
  "post_attendance other req d =
     on_row other req d
       (db_get (get_err req) d (body_employeeName req) (format_date (clock_date req)))"

text \<open>A sequence of requests, each handled to its end before the next.\<close>

fun run_requests :: "engine \<Rightarrow> attendance_req list \<Rightarrow> db \<Rightarrow> db" where
  "run_requests other [] d = d"
| "run_requests other (req # reqs) d = run_requests other reqs (fst (post_attendance other req d))"

text \<open>
  The server handles requests concurrently. The lookup of a request (\<^verbatim>\<open>db.get\<close>, line 67)
  and its callback with the write (lines 68-111) are two steps, and the steps of different
  requests interleave: a callback works with the row its lookup returned, and writes to
  the table as it is when the callback runs. An event is the lookup of an arriving request,
  or the callback of the request at a position of the list of requests whose lookup has
  been answered.
\<close>

record server =
  table :: db
  waiting :: "(attendance_req \<times> (storage_error + row option)) list"
  sent :: "response list"

datatype event = Lookup attendance_req | Callback nat

fun handle :: "engine \<Rightarrow> event \<Rightarrow> server \<Rightarrow> server" where
  "handle other (Lookup req) s =
     s\<lparr>waiting := waiting s @
          [(req, db_get (get_err req) (table s) (body_employeeName req)
                   (format_date (clock_date req)))]\<rparr>"
| "handle other (Callback i) s =
     (if i < length (waiting s)
      then (let (req, looked) = waiting s ! i;
                (d', resp) = on_row other req (table s) looked
            in s\<lparr>table := d',
                 waiting := take i (waiting s) @ drop (Suc i) (waiting s),
                 sent := sent s @ [resp]\<rparr>)
      else s)"

definition run_events :: "engine \<Rightarrow> event list \<Rightarrow> server \<Rightarrow> server" where
  "run_events other evs s = fold (handle other) evs s"

text \<open>The server with no request in progress.\<close>

definition idle :: "db \<Rightarrow> server" where
  "idle d = \<lparr>table = d, waiting = [], sent = []\<rparr>"

text \<open>A check-in or check-out submission: the action is one of the two the form sends.\<close>

definition submission :: "attendance_req \<Rightarrow> bool" where
  "submission req = (body_action req = Some ''checkIn'' \<or> body_action req = Some ''checkOut'')"

subsection \<open>The range query (lines 132 and 150)\<close>

text \<open>
  \<^verbatim>\<open>SELECT * FROM attendance WHERE date BETWEEN ? AND ? ORDER BY date DESC, employeeName\<close>.
  BETWEEN compares TEXT bytewise and is not true when a bound is NULL. The rows are put in
  order by insertion into a sorted list; rows that agree on date and name keep their
  rowid order (SQL leaves their order open).
\<close>

fun between :: "string \<Rightarrow> string option \<Rightarrow> string option \<Rightarrow> bool" where
  "between x (Some a) (Some b) = (a \<le> x \<and> x \<le> b)"
| "between x a b = False"

definition row_le :: "row \<Rightarrow> row \<Rightarrow> bool" where
  "row_le a b = (date b < date a \<or> (date a = date b \<and> employeeName a \<le> employeeName b))"

fun insert_sorted :: "row \<Rightarrow> row list \<Rightarrow> row list" where
  "insert_sorted r [] = [r]"
| "insert_sorted r (x # xs) = (if row_le r x then r # x # xs else x # insert_sorted r xs)"

definition order_by :: "row list \<Rightarrow> row list" where
  "order_by rs = foldr insert_sorted rs []"

definition queryRange :: "db \<Rightarrow> string option \<Rightarrow> string option \<Rightarrow> row list" where
  "queryRange d startDate endDate =
     order_by (filter (\<lambda>r. between (date r) startDate endDate) (rows d))"

text \<open>\<^verbatim>\<open>db.all\<close> with that statement; the flag says that the database reported an error.\<close>

definition db_all :: "bool \<Rightarrow> db \<Rightarrow> string option \<Rightarrow> string option \<Rightarrow> storage_error + row list" where
  "db_all io_err d startDate endDate =
     (if io_err then Inl SqliteIoError else Inr (queryRange d startDate endDate))"

record range_query =
  query_startDate :: "string option"
  query_endDate :: "string option"

subsection \<open>GET /admin (lines 121-143)\<close>

text \<open>\<^verbatim>\<open>a || b\<close> for a value \<open>a\<close> that is a string or \<^verbatim>\<open>undefined\<close> and a string \<open>b\<close>.\<close>

fun js_or :: "string option \<Rightarrow> string \<Rightarrow> string" where
  "js_or None b = b"
| "js_or (Some a) b = (if a = [] then b else a)"

definition get_admin :: "moment \<Rightarrow> bool \<Rightarrow> range_query \<Rightarrow> db \<Rightarrow> response" where
  "get_admin now io_err q d =
     (let (startDate, endDate) =
            (if \<not> truthy (query_startDate q) \<or> \<not> truthy (query_endDate q)
             then (let today = format_date now
                   in (Some (js_or (query_startDate q) today), Some (js_or (query_endDate q) today)))
             else (query_startDate q, query_endDate q))
      in case db_all io_err d startDate endDate of
           Inl err \<Rightarrow> SendStatus 500 ''An error occurred while fetching attendance records.''
         | Inr rs \<Rightarrow> RenderAdmin rs startDate endDate)"

subsection \<open>GET /download-report (lines 146-193)\<close>

text \<open>
  The header given to csv-writer (lines 163-169): the field of the record each column
  reads, and the title of the column.
\<close>

definition csv_header :: "(string \<times> string) list" where
  "csv_header =
     [(''id'', ''ID''), (''employeeName'', ''Employee Name''), (''date'', ''Date''),
      (''checkIn'', ''Check In''), (''checkOut'', ''Check Out'')]"

text \<open>\<^verbatim>\<open>record[field]\<close> for a row object returned by \<^verbatim>\<open>db.all\<close>.\<close>

definition row_field :: "string \<Rightarrow> row \<Rightarrow> sqlval" where
  "row_field f r =
     (if f = ''id'' then SqlInt (row_id r)
      else if f = ''employeeName'' then SqlText (employeeName r)
      else if f = ''date'' then SqlText (date r)
      else if f = ''checkIn'' then bind (checkIn r)
      else if f = ''checkOut'' then bind (checkOut r)
      else SqlNull)"

text \<open>
  \<^verbatim>\<open>csvWriter.writeRecords(rows)\<close>: the content written to the temporary file, or a failure
  (the flag). A failed write is taken to leave the file as it was.
\<close>

definition writeRecords :: "bool \<Rightarrow> row list \<Rightarrow> unit + csv_file" where
  "writeRecords io_err rs =
     (if io_err then Inl ()
      else Inr \<lparr>titles = map snd csv_header,
                records = map (\<lambda>r. map (\<lambda>h. row_field (fst h) r) csv_header) rs\<rparr>)"

text \<open>\<^verbatim>\<open>fs.unlink\<close> on the temporary file; a failure is only logged.\<close>

definition fs_unlink :: "bool \<Rightarrow> csv_file option \<Rightarrow> csv_file option" where
  "fs_unlink io_err file = (if io_err then file else None)"

text \<open>
  What the environment does during one export: whether the query, the write, the
  transfer to the client and the removal of the file fail.
\<close>

record download_env =
  all_err :: bool
  write_err :: bool
  download_err :: bool
  unlink_err :: bool

text \<open>
  The handler, on the table and on the content of \<^verbatim>\<open>${tmpDir}/attendance_report.csv\<close>
  (\<open>None\<close>: no such file); it returns the file as it leaves it, and the response.
\<close>

definition get_download_report ::
  "download_env \<Rightarrow> range_query \<Rightarrow> db \<Rightarrow> csv_file option \<Rightarrow> csv_file option \<times> response" where
  "get_download_report env q d file =
     (let startDate = query_startDate q;
          endDate = query_endDate q
      in case db_all (all_err env) d startDate endDate of
           Inl err \<Rightarrow> (file, SendStatus 500 ''An error occurred while fetching attendance records.'')
         | Inr rs \<Rightarrow>
             if length rs = 0
               then (file, SendStatus 404 ''No records found for the selected date range.'')
             else
               (case writeRecords (write_err env) rs of
                  Inl error \<Rightarrow>
                    (file, SendStatus 500 ''An error occurred while generating the report.'')
                | Inr written \<Rightarrow>
                    if download_err env
                      then (Some written,
                            SendStatus 500 ''An error occurred while downloading the report.'')
                    else (fs_unlink (unlink_err env) (Some written),
                          Download written ''attendance_report.csv'')))"

subsection \<open>Notions used to state the properties\<close>

text \<open>The fixed-width forms of numbers below 100 and below 10000.\<close>

definition pad2 :: "nat \<Rightarrow> string" where
  "pad2 n = [digit_char (n div 10), digit_char n]"

definition pad4 :: "nat \<Rightarrow> string" where
  "pad4 n = [digit_char (n div 1000), digit_char (n div 100), digit_char (n div 10), digit_char n]"

text \<open>The column a submission writes, and reading a time column of a row.\<close>

definition action_column :: "attendance_req \<Rightarrow> column" where
  "action_column req = (if body_action req = Some ''checkIn'' then CheckIn else CheckOut)"

fun time_column :: "column \<Rightarrow> row \<Rightarrow> string option" where
  "time_column CheckIn r = checkIn r"
| "time_column CheckOut r = checkOut r"
| "time_column c r = None"

text \<open>The row the lookup of line 67 finds for a request, when the database answers.\<close>

definition lookup :: "attendance_req \<Rightarrow> db \<Rightarrow> row option" where
  "lookup req d =
     find (\<lambda>r. Some (employeeName r) = body_employeeName req \<and> date r = format_date (clock_date req))
       (rows d)"

text \<open>The row a submission creates for employee \<open>n\<close>.\<close>

definition new_row :: "column \<Rightarrow> attendance_req \<Rightarrow> string \<Rightarrow> db \<Rightarrow> row" where
  "new_row c req n d =
     set_column c (format_time (clock_time req))
       \<lparr>row_id = next_id d, employeeName = n, date = format_date (clock_date req),
        checkIn = None, checkOut = None\<rparr>"

text \<open>The invariants of the table.\<close>

definition unique_keys :: "db \<Rightarrow> bool" where
  "unique_keys d = distinct (map (\<lambda>r. (employeeName r, date r)) (rows d))"

definition pk_unique :: "db \<Rightarrow> bool" where
  "pk_unique d = distinct (map row_id (rows d))"

definition times_nonempty :: "db \<Rightarrow> bool" where
  "times_nonempty d = list_all (\<lambda>r. checkIn r \<noteq> Some [] \<and> checkOut r \<noteq> Some []) (rows d)"

definition table_inv :: "db \<Rightarrow> bool" where
  "table_inv d = (pk_unique d \<and> times_nonempty d)"

text \<open>
  A later version of a row keeps its id, name and date, and every time that was set; a
  later table keeps every row of the earlier one, at the same position, in that sense.
\<close>

definition keeps :: "row \<Rightarrow> row \<Rightarrow> bool" where
  "keeps r r' =
     (row_id r' = row_id r \<and> employeeName r' = employeeName r \<and> date r' = date r
      \<and> (checkIn r \<noteq> None \<longrightarrow> checkIn r' = checkIn r)
      \<and> (checkOut r \<noteq> None \<longrightarrow> checkOut r' = checkOut r))"

definition extends :: "db \<Rightarrow> db \<Rightarrow> bool" where
  "extends d d' =
     (length (rows d) \<le> length (rows d')
      \<and> (\<forall>i<length (rows d). keeps (rows d ! i) (rows d' ! i)))"

text \<open>The strict version of the order of the range query.\<close>

definition row_lt :: "row \<Rightarrow> row \<Rightarrow> bool" where
  "row_lt a b = (date b < date a \<or> (date a = date b \<and> employeeName a < employeeName b))"

text \<open>
  Clock readings that are calendar dates of the years the format pads to four digits, and
  the order of their days.
\<close>

definition calendar :: "moment \<Rightarrow> bool" where
  "calendar m =
     (m_year m < 10000 \<and> 1 \<le> m_month m \<and> m_month m \<le> 12 \<and> 1 \<le> m_day m \<and> m_day m \<le> 31)"

definition day_le :: "moment \<Rightarrow> moment \<Rightarrow> bool" where
  "day_le a b =
     (m_year a < m_year b
      \<or> (m_year a = m_year b
          \<and> (m_month a < m_month b \<or> (m_month a = m_month b \<and> m_day a \<le> m_day b))))"

subsection \<open>Sample data\<close>

text \<open>
  Concrete inputs for evaluating the handlers: an engine that refuses every statement the
  model does not write out, clock readings in January 2024, and requests with no database
  failure.
\<close>

definition refuse_other :: engine where
  "refuse_other sql ps d = Inl SqliteError"

definition at_time :: "nat \<Rightarrow> nat \<Rightarrow> nat \<Rightarrow> moment" where
  "at_time dd h mi =
     \<lparr>m_year = 2024, m_month = 1, m_day = dd, m_hour = h, m_minute = mi, m_second = 0\<rparr>"

definition submit :: "string option \<Rightarrow> string option \<Rightarrow> moment \<Rightarrow> attendance_req" where
  "submit n a m =
     \<lparr>body_employeeName = n, body_action = a, clock_date = m, clock_time = m,
      get_err = False, run_err = False\<rparr>"

text \<open>
  Alice checks in at 9:00 and out at 18:00, Bob checks in at 9:30, and Alice submits a
  check-in again at 19:05.
\<close>

definition example_day :: "attendance_req list" where
  "example_day =
     [submit (Some ''Alice'') (Some ''checkIn'') (at_time 1 9 0),
      submit (Some ''Alice'') (Some ''checkOut'') (at_time 1 18 0),
      submit (Some ''Bob'') (Some ''checkIn'') (at_time 1 9 30),
      submit (Some ''Alice'') (Some ''checkIn'') (at_time 1 19 5)]"

text \<open>
  A table with a complete record, a record with a check-in only and a record with a
  check-out only.
\<close>

definition example_table :: db where
  "example_table =
     \<lparr>rows =
        [\<lparr>row_id = 1, employeeName = ''Alice'', date = ''2024-01-01'',
          checkIn = Some ''9:00:00 AM'', checkOut = Some ''6:00:00 PM''\<rparr>,
         \<lparr>row_id = 2, employeeName = ''Bob'', date = ''2024-01-01'',
          checkIn = Some ''9:30:00 AM'', checkOut = None\<rparr>,
         \<lparr>row_id = 3, employeeName = ''Carol'', date = ''2024-01-01'',
          checkIn = None, checkOut = Some ''5:45:00 PM''\<rparr>],
      seq = 3\<rparr>"

text \<open>A table with records on four days.\<close>

definition example_week :: db where
  "example_week =
     \<lparr>rows =
        [\<lparr>row_id = 1, employeeName = ''Bob'', date = ''2023-12-31'',
          checkIn = Some ''9:10:00 AM'', checkOut = Some ''5:00:00 PM''\<rparr>,
         \<lparr>row_id = 2, employeeName = ''Bob'', date = ''2024-01-01'',
          checkIn = Some ''9:30:00 AM'', checkOut = None\<rparr>,
         \<lparr>row_id = 3, employeeName = ''Alice'', date = ''2024-01-01'',
          checkIn = Some ''9:45:00 AM'', checkOut = Some ''6:00:00 PM''\<rparr>,
         \<lparr>row_id = 4, employeeName = ''Alice'', date = ''2024-01-02'',
          checkIn = Some ''9:00:00 AM'', checkOut = None\<rparr>,
         \<lparr>row_id = 5, employeeName = ''Carol'', date = ''2024-01-03'',
          checkIn = None, checkOut = Some ''5:45:00 PM''\<rparr>],
      seq = 5\<rparr>"

text \<open>An export during which nothing fails.\<close>

definition quiet :: download_env where
  "quiet = \<lparr>all_err = False, write_err = False, download_err = False, unlink_err = False\<rparr>"

section \<open>Properties\<close>

subsection \<open>The clock\<close>

lemma digit_char_0: "digit_char 0 = CHR ''0''"
  by (simp add: digit_char_def)

lemma decimal_1: "n < 10 \<Longrightarrow> decimal n = [digit_char n]"
  by (subst decimal.simps) simp

lemma decimal_2: "10 \<le> n \<Longrightarrow> n < 100 \<Longrightarrow> decimal n = [digit_char (n div 10), digit_char n]"
  by (subst decimal.simps) (simp add: decimal_1)

lemma decimal_3:
  "100 \<le> n \<Longrightarrow> n < 1000 \<Longrightarrow>
     decimal n = [digit_char (n div 100), digit_char (n div 10), digit_char n]"
  by (subst decimal.simps) (simp add: decimal_2 div_mult2_eq[symmetric])

lemma decimal_4:
  "1000 \<le> n \<Longrightarrow> n < 10000 \<Longrightarrow>
     decimal n = [digit_char (n div 1000), digit_char (n div 100), digit_char (n div 10), digit_char n]"
  by (subst decimal.simps) (simp add: decimal_3 div_mult2_eq[symmetric])

lemma zeroFill_pad2: "n < 100 \<Longrightarrow> zeroFill n 2 = pad2 n"
proof (cases "n < 10")
  case True
  then show ?thesis by (simp add: zeroFill_def decimal_1 pad2_def digit_char_0)
next
  case False
  assume "n < 100"
  then show ?thesis using False by (simp add: zeroFill_def decimal_2 pad2_def)
qed

lemma replicate_2: "replicate 2 x = [x, x]"
  by (simp add: numeral_2_eq_2)

lemma replicate_3: "replicate 3 x = [x, x, x]"
  by (simp add: numeral_3_eq_3)

lemma zeroFill_pad4: "n < 10000 \<Longrightarrow> zeroFill n 4 = pad4 n"
proof -
  assume b: "n < 10000"
  consider "n < 10" | "10 \<le> n" "n < 100" | "100 \<le> n" "n < 1000" | "1000 \<le> n"
    by linarith
  then show ?thesis
  proof cases
    case 1
    then have "decimal n = [digit_char n]" by (rule decimal_1)
    then show ?thesis using 1
      by (simp add: zeroFill_def pad4_def digit_char_0 replicate_3)
  next
    case 2
    then have "decimal n = [digit_char (n div 10), digit_char n]" by (rule decimal_2)
    then show ?thesis using 2
      by (simp add: zeroFill_def pad4_def digit_char_0 replicate_2)
  next
    case 3
    then have "decimal n = [digit_char (n div 100), digit_char (n div 10), digit_char n]"
      by (rule decimal_3)
    then show ?thesis using 3
      by (simp add: zeroFill_def pad4_def digit_char_0)
  next
    case 4
    then have "decimal n
      = [digit_char (n div 1000), digit_char (n div 100), digit_char (n div 10), digit_char n]"
      using b by (rule decimal_4)
    then show ?thesis by (simp add: zeroFill_def pad4_def)
  qed
qed

lemma decimal_nonempty: "decimal n \<noteq> []"
  by (subst decimal.simps) simp

lemma format_date_pad:
  "m_year m < 10000 \<Longrightarrow> m_month m < 100 \<Longrightarrow> m_day m < 100 \<Longrightarrow>
     format_date m = pad4 (m_year m) @ ''-'' @ pad2 (m_month m) @ ''-'' @ pad2 (m_day m)"
  by (simp add: format_date_def zeroFill_pad2 zeroFill_pad4)

lemma format_time_pad:
  "m_minute m < 100 \<Longrightarrow> m_second m < 100 \<Longrightarrow>
   format_time m =
     (let h = m_hour m mod 12;
          h12 = (if h = 0 then 12 else h)
      in (if h12 < 10 then [digit_char h12] else pad2 h12)
         @ '':'' @ pad2 (m_minute m) @ '':'' @ pad2 (m_second m)
         @ (if m_hour m < 12 then '' AM'' else '' PM''))"
proof -
  assume b: "m_minute m < 100" "m_second m < 100"
  have h: "m_hour m mod 12 < 12" by simp
  have d: "decimal (if m_hour m mod 12 = 0 then 12 else m_hour m mod 12)
     = (if (if m_hour m mod 12 = 0 then 12 else m_hour m mod 12) < 10
        then [digit_char (if m_hour m mod 12 = 0 then 12 else m_hour m mod 12)]
        else pad2 (if m_hour m mod 12 = 0 then 12 else m_hour m mod 12))"
    using h by (auto simp add: decimal_1 decimal_2 pad2_def)
  show ?thesis
    using b unfolding format_time_def Let_def d by (simp add: zeroFill_pad2)
qed

lemma format_time_nonempty: "format_time m \<noteq> []"
  by (simp add: format_time_def Let_def)

lemma format_date_nonempty: "format_date m \<noteq> []"
  by (simp add: format_date_def)

text \<open>Beyond the year 9999 the year is written with all its digits.\<close>

lemma format_date_year_10000:
  "format_date \<lparr>m_year = 10000, m_month = 1, m_day = 1, m_hour = 0, m_minute = 0, m_second = 0\<rparr>
     = ''10000-01-01''"
  by (simp add: format_date_def zeroFill_def decimal.simps digit_char_def)

subsection \<open>The statements and the branches\<close>


lemma db_run_insert_checkIn:
  "db_run other False (sqlInsert ''checkIn'') ps d = insert_row CheckIn ps d"
  by (simp add: db_run_def sqlInsert_def)

lemma db_run_insert_checkOut:
  "db_run other False (sqlInsert ''checkOut'') ps d = insert_row CheckOut ps d"
  by (simp add: db_run_def sqlInsert_def)

lemma db_run_update_checkIn:
  "db_run other False (sqlUpdate ''checkIn'') ps d = update_row CheckIn ps d"
  by (simp add: db_run_def sqlUpdate_def)

lemma db_run_update_checkOut:
  "db_run other False (sqlUpdate ''checkOut'') ps d = update_row CheckOut ps d"
  by (simp add: db_run_def sqlUpdate_def)

lemma db_run_io_err: "db_run other True sql ps d = Inl SqliteIoError"
  by (simp add: db_run_def)

lemma db_run_insert_submission:
  "submission req \<Longrightarrow>
     db_run other False (sqlInsert (js_string (body_action req))) ps d
       = insert_row (action_column req) ps d"
  by (auto simp add: submission_def action_column_def db_run_insert_checkIn db_run_insert_checkOut)

lemma db_run_update_submission:
  "submission req \<Longrightarrow>
     db_run other False (sqlUpdate (js_string (body_action req))) ps d
       = update_row (action_column req) ps d"
  by (auto simp add: submission_def action_column_def db_run_update_checkIn db_run_update_checkOut)

lemma post_get_err:
  "get_err req \<Longrightarrow>
     post_attendance other req d
       = (d, SendStatus 500 ''An error occurred while processing your request.'')"
  by (simp add: post_attendance_def on_row_def db_get_def)

lemma post_none:
  "\<not> get_err req \<Longrightarrow> lookup req d = None \<Longrightarrow>
   post_attendance other req d =
     (case db_run other (run_err req) (sqlInsert (js_string (body_action req)))
             [bind (body_employeeName req), SqlText (format_date (clock_date req)),
              SqlText (format_time (clock_time req))] d of
        Inl err \<Rightarrow> (d, SendStatus 500 ''An error occurred while saving attendance.'')
      | Inr d' \<Rightarrow> (d', RenderSuccess))"
  by (simp add: post_attendance_def on_row_def db_get_def lookup_def Let_def)

lemma post_some:
  "\<not> get_err req \<Longrightarrow> lookup req d = Some row \<Longrightarrow>
   post_attendance other req d =
     (if truthy (checkIn row) \<and> truthy (checkOut row)
        then (d, RenderAlready ''You have already checked in and out for today.'')
      else if body_action req = Some ''checkIn'' \<and> truthy (checkIn row)
        then (d, RenderAlready ''You have already checked in for today.'')
      else if body_action req = Some ''checkOut'' \<and> truthy (checkOut row)
        then (d, RenderAlready ''You have already checked out for today.'')
      else
        (case db_run other (run_err req) (sqlUpdate (js_string (body_action req)))
                [SqlText (format_time (clock_time req)), SqlInt (row_id row)] d of
           Inl err \<Rightarrow> (d, SendStatus 500 ''An error occurred while updating attendance.'')
         | Inr d' \<Rightarrow> (d', RenderSuccess)))"
  by (simp add: post_attendance_def on_row_def db_get_def lookup_def Let_def)

text \<open>
  What a submission can do to the table: nothing, append one row for a pair that had none,
  or set a time column that was not set on the rows carrying the id of the row found.
\<close>

lemma post_submission_cases:
  assumes "submission req"
  shows "fst (post_attendance other req d) = d
    \<or> (\<exists>n. body_employeeName req = Some n \<and> lookup req d = None
          \<and> fst (post_attendance other req d)
              = d\<lparr>rows := rows d @ [new_row (action_column req) req n d], seq := next_id d\<rparr>)
    \<or> (\<exists>row. lookup req d = Some row \<and> \<not> truthy (time_column (action_column req) row)
          \<and> fst (post_attendance other req d) =
               d\<lparr>rows := map (\<lambda>r. if row_id r = row_id row
                                   then set_column (action_column req) (format_time (clock_time req)) r
                                   else r) (rows d)\<rparr>)"
proof (cases "get_err req")
  case True
  then show ?thesis by (simp add: post_get_err)
next
  case noget: False
  show ?thesis
  proof (cases "run_err req")
    case True
    then show ?thesis using noget
      by (cases "lookup req d") (simp_all add: post_none post_some db_run_io_err)
  next
    case norun: False
    show ?thesis
    proof (cases "lookup req d")
      case None
      show ?thesis
      proof (cases "body_employeeName req")
        case nn: None
        then show ?thesis using noget norun None
          by (simp add: post_none db_run_insert_submission[OF assms])
      next
        case (Some n)
        then show ?thesis using noget norun None
          by (simp add: post_none db_run_insert_submission[OF assms] new_row_def Let_def)
      qed
    next
      case (Some row)
      then show ?thesis using noget norun assms
        by (auto simp add: post_some db_run_update_submission[OF assms] action_column_def
            submission_def)
    qed
  qed
qed

lemmas eval_defs =
  example_day_def submit_def at_time_def post_attendance_def on_row_def db_get_def db_run_def
  sqlInsert_def sqlUpdate_def empty_db_def format_date_pad format_time_pad pad2_def pad4_def
  digit_char_def next_id_def Let_def refuse_other_def

subsection \<open>Invariants\<close>

lemma fold_max_ge: "a \<le> fold max xs (a::int)"
proof (induction xs arbitrary: a)
  case Nil
  then show ?case by simp
next
  case (Cons x xs)
  have "a \<le> max x a" by simp
  also have "max x a \<le> fold max xs (max x a)" by (rule Cons.IH)
  finally show ?case by simp
qed

lemma fold_max_mem: "x \<in> set xs \<Longrightarrow> x \<le> fold max xs (a::int)"
proof (induction xs arbitrary: a)
  case Nil
  then show ?case by simp
next
  case (Cons y ys)
  show ?case
  proof (cases "x = y")
    case True
    have "max y a \<le> fold max ys (max y a)" by (rule fold_max_ge)
    then show ?thesis using True by simp
  next
    case False
    then show ?thesis using Cons by simp
  qed
qed

lemma next_id_fresh: "r \<in> set (rows d) \<Longrightarrow> row_id r < next_id d"
  using fold_max_mem[of "row_id r" "map row_id (rows d)" "seq d"] by (simp add: next_id_def)

lemma action_column_time: "action_column req = CheckIn \<or> action_column req = CheckOut"
  by (simp add: action_column_def)

lemma lookup_None_fresh:
  "lookup req d = None \<Longrightarrow> body_employeeName req = Some n \<Longrightarrow>
     (n, format_date (clock_date req)) \<notin> set (map (\<lambda>r. (employeeName r, date r)) (rows d))"
  by (auto simp add: lookup_def find_None_iff)

lemma unique_keys_step:
  assumes "submission req" "unique_keys d"
  shows "unique_keys (fst (post_attendance other req d))"
  using post_submission_cases[OF assms(1), of other d]
proof (elim disjE exE conjE)
  assume "fst (post_attendance other req d) = d"
  then show ?thesis using assms(2) by simp
next
  fix n
  assume n: "body_employeeName req = Some n" and l: "lookup req d = None"
    and e: "fst (post_attendance other req d)
              = d\<lparr>rows := rows d @ [new_row (action_column req) req n d], seq := next_id d\<rparr>"
  have "(employeeName (new_row (action_column req) req n d),
         date (new_row (action_column req) req n d)) = (n, format_date (clock_date req))"
    using action_column_time[of req] by (auto simp add: new_row_def)
  then show ?thesis using lookup_None_fresh[OF l n] assms(2) e
    by (simp add: unique_keys_def)
next
  fix row
  assume e: "fst (post_attendance other req d) =
               d\<lparr>rows := map (\<lambda>r. if row_id r = row_id row
                                   then set_column (action_column req) (format_time (clock_time req)) r
                                   else r) (rows d)\<rparr>"
  have k: "map (\<lambda>r. (employeeName r, date r)) (rows (fst (post_attendance other req d)))
      = map (\<lambda>r. (employeeName r, date r)) (rows d)"
    unfolding e using action_column_time[of req] by (auto simp add: comp_def)
  show ?thesis using assms(2) unfolding unique_keys_def k .
qed

lemma unique_keys_run:
  "\<forall>req\<in>set reqs. submission req \<Longrightarrow> unique_keys d
     \<Longrightarrow> unique_keys (run_requests other reqs d)"
  by (induction reqs arbitrary: d) (simp_all add: unique_keys_step)

lemma distinct_map_filter_le1:
  "distinct (map f xs) \<Longrightarrow> length (filter (\<lambda>x. f x = k) xs) \<le> 1"
proof (induction xs)
  case Nil
  then show ?case by simp
next
  case (Cons x xs)
  show ?case
  proof (cases "f x = k")
    case True
    have "\<forall>y\<in>set xs. f y \<noteq> k"
    proof
      fix y
      assume "y \<in> set xs"
      then have "f y \<in> f ` set xs" by simp
      moreover have "f x \<notin> f ` set xs" using Cons.prems by simp
      ultimately show "f y \<noteq> k" using True by auto
    qed
    then have "filter (\<lambda>x. f x = k) xs = []" by (simp add: filter_empty_conv)
    then show ?thesis using True by simp
  next
    case False
    then show ?thesis using Cons by simp
  qed
qed

subsection \<open>Requests handled one at a time\<close>

text \<open>
  When the callback of each request runs right after its lookup, the server does what
  \<open>run_requests\<close> does.
\<close>

lemma handle_lookup_callback:
  "waiting s = [] \<Longrightarrow>
   handle other (Callback 0) (handle other (Lookup req) s)
     = s\<lparr>table := fst (post_attendance other req (table s)),
          sent := sent s @ [snd (post_attendance other req (table s))]\<rparr>"
  by (simp add: post_attendance_def Let_def split: prod.split)

lemma run_events_one_at_a_time:
  "waiting s = [] \<Longrightarrow>
   table (run_events other (concat (map (\<lambda>req. [Lookup req, Callback 0]) reqs)) s)
     = run_requests other reqs (table s)
   \<and> waiting (run_events other (concat (map (\<lambda>req. [Lookup req, Callback 0]) reqs)) s) = []"
proof (induction reqs arbitrary: s)
  case Nil
  then show ?case by (simp add: run_events_def)
next
  case (Cons req reqs)
  let ?s = "handle other (Callback 0) (handle other (Lookup req) s)"
  have hs: "?s = s\<lparr>table := fst (post_attendance other req (table s)),
          sent := sent s @ [snd (post_attendance other req (table s))]\<rparr>"
    using Cons.prems by (rule handle_lookup_callback)
  have w: "waiting ?s = []"
    unfolding hs using Cons.prems by simp
  have t: "table ?s = fst (post_attendance other req (table s))"
    unfolding hs by simp
  have "run_events other (concat (map (\<lambda>req. [Lookup req, Callback 0]) (req # reqs))) s
      = run_events other (concat (map (\<lambda>req. [Lookup req, Callback 0]) reqs)) ?s"
    by (simp add: run_events_def)
  then show ?case using Cons.IH[OF w] t by simp
qed

subsection \<open>C1: one record per employee and date\<close>

text \<open>
  C1 says that no sequence of check-in/check-out submissions leaves two rows with the same
  employee name and date. The handler enforces this by looking the row up (line 67) and
  inserting when there is none (line 77), in two steps, with no lock and no uniqueness
  constraint on the table. When two check-ins of Alice arrive on the empty table and both
  lookups are answered before the first callback runs, both callbacks insert: the table
  holds two rows for Alice on that day, and both requests get the success page. This holds
  whatever SQLite does with statements outside the model.
\<close>

theorem interleaved_check_ins_leave_two_rows:
  "rows (table (run_events other
       [Lookup (submit (Some ''Alice'') (Some ''checkIn'') (at_time 1 9 0)),
        Lookup (submit (Some ''Alice'') (Some ''checkIn'') (at_time 1 9 1)),
        Callback 0, Callback 0] (idle empty_db)))
     = [\<lparr>row_id = 1, employeeName = ''Alice'', date = ''2024-01-01'',
         checkIn = Some ''9:00:00 AM'', checkOut = None\<rparr>,
        \<lparr>row_id = 2, employeeName = ''Alice'', date = ''2024-01-01'',
         checkIn = Some ''9:01:00 AM'', checkOut = None\<rparr>]
   \<and> sent (run_events other
       [Lookup (submit (Some ''Alice'') (Some ''checkIn'') (at_time 1 9 0)),
        Lookup (submit (Some ''Alice'') (Some ''checkIn'') (at_time 1 9 1)),
        Callback 0, Callback 0] (idle empty_db))
     = [RenderSuccess, RenderSuccess]"
  by (simp add: run_events_def idle_def submit_def at_time_def on_row_def db_get_def db_run_def
      sqlInsert_def sqlUpdate_def empty_db_def format_date_pad format_time_pad pad2_def pad4_def
      digit_char_def next_id_def Let_def)

text \<open>
  When each request is handled to its end before the next one is looked up, the lookup
  does enforce it: starting from the empty table, after any sequence of check-in/check-out
  submissions at most one row exists for any pair of employee name and date, whatever the
  names, the clock readings and the database failures are.
\<close>

theorem at_most_one_record_per_employee_and_date:
  assumes "\<forall>req\<in>set reqs. submission req"
  shows "length (filter (\<lambda>r. employeeName r = n \<and> date r = day)
           (rows (run_requests other reqs empty_db))) \<le> 1"
proof -
  have "unique_keys (run_requests other reqs empty_db)"
    using assms by (rule unique_keys_run) (simp add: unique_keys_def empty_db_def)
  then have "length (filter (\<lambda>r. (employeeName r, date r) = (n, day))
               (rows (run_requests other reqs empty_db))) \<le> 1"
    unfolding unique_keys_def by (rule distinct_map_filter_le1)
  then show ?thesis by simp
qed

lemma example_day_submissions: "list_all submission example_day"
  by (simp add: example_day_def submit_def submission_def)

lemma example_day_rows:
  "rows (run_requests refuse_other example_day empty_db) =
     [\<lparr>row_id = 1, employeeName = ''Alice'', date = ''2024-01-01'',
       checkIn = Some ''9:00:00 AM'', checkOut = Some ''6:00:00 PM''\<rparr>,
      \<lparr>row_id = 2, employeeName = ''Bob'', date = ''2024-01-01'',
       checkIn = Some ''9:30:00 AM'', checkOut = None\<rparr>]"
  by (simp add: eval_defs)

theorem at_most_one_record_witness:
  "list_all submission example_day \<and>
   length (filter (\<lambda>r. employeeName r = ''Alice'' \<and> date r = ''2024-01-01'')
     (rows (run_requests refuse_other example_day empty_db))) \<le> 1 \<and>
   length (rows (run_requests refuse_other example_day empty_db)) = 2"
proof -
  have h: "\<forall>req\<in>set example_day. submission req"
    using example_day_submissions by (simp add: list_all_iff)
  show ?thesis
    using at_most_one_record_per_employee_and_date
            [OF h, of "''Alice''" "''2024-01-01''" refuse_other]
    by (simp add: example_day_submissions example_day_rows)
qed

subsection \<open>Rows are kept\<close>

lemma keeps_refl: "keeps r r" by (simp add: keeps_def)

lemma keeps_trans: "keeps a b \<Longrightarrow> keeps b c \<Longrightarrow> keeps a c"
  by (auto simp add: keeps_def)

lemma extends_refl: "extends d d" by (simp add: extends_def keeps_refl)

lemma extends_trans: "extends a b \<Longrightarrow> extends b c \<Longrightarrow> extends a c"
  unfolding extends_def by (meson keeps_trans le_trans less_le_trans)

lemma lookup_Some_mem: "lookup req d = Some row \<Longrightarrow> row \<in> set (rows d)"
  unfolding lookup_def by (auto simp add: find_Some_iff)

lemma lookup_Some_key:
  "lookup req d = Some row \<Longrightarrow>
     Some (employeeName row) = body_employeeName req \<and> date row = format_date (clock_date req)"
  unfolding lookup_def by (auto simp add: find_Some_iff)

lemma pk_unique_same_id:
  "pk_unique d \<Longrightarrow> r \<in> set (rows d) \<Longrightarrow> r' \<in> set (rows d) \<Longrightarrow> row_id r = row_id r' \<Longrightarrow> r = r'"
  unfolding pk_unique_def by (meson distinct_map inj_onD)

lemma not_truthy_None:
  "times_nonempty d \<Longrightarrow> r \<in> set (rows d) \<Longrightarrow> c = CheckIn \<or> c = CheckOut \<Longrightarrow>
     \<not> truthy (time_column c r) \<Longrightarrow> time_column c r = None"
  by (cases "time_column c r") (auto simp add: times_nonempty_def list_all_iff)

lemma keeps_set_column:
  "c = CheckIn \<or> c = CheckOut \<Longrightarrow> time_column c r = None \<Longrightarrow> keeps r (set_column c t r)"
  by (auto simp add: keeps_def)

lemma pk_unique_update:
  "c = CheckIn \<or> c = CheckOut \<Longrightarrow>
   pk_unique (d\<lparr>rows := map (\<lambda>r. if row_id r = i then set_column c t r else r) (rows d)\<rparr>) = pk_unique d"
proof -
  assume c: "c = CheckIn \<or> c = CheckOut"
  have m: "map row_id (map (\<lambda>r. if row_id r = i then set_column c t r else r) (rows d)) = map row_id (rows d)"
    using c by (auto simp add: comp_def)
  show ?thesis unfolding pk_unique_def by (simp del: map_map add: m)
qed

lemma table_inv_step:
  assumes "submission req" "table_inv d"
  shows "table_inv (fst (post_attendance other req d))"
  using post_submission_cases[OF assms(1), of other d]
proof (elim disjE exE conjE)
  assume "fst (post_attendance other req d) = d"
  then show ?thesis using assms(2) by simp
next
  fix n
  assume e: "fst (post_attendance other req d)
              = d\<lparr>rows := rows d @ [new_row (action_column req) req n d], seq := next_id d\<rparr>"
  have id: "row_id (new_row (action_column req) req n d) = next_id d"
    using action_column_time[of req] by (auto simp add: new_row_def)
  have "row_id (new_row (action_column req) req n d) \<notin> row_id ` set (rows d)"
    unfolding id using next_id_fresh[of _ d] by fastforce
  then have pk: "pk_unique (fst (post_attendance other req d))"
    using assms(2) unfolding e table_inv_def pk_unique_def by simp
  have "checkIn (new_row (action_column req) req n d) \<noteq> Some []
      \<and> checkOut (new_row (action_column req) req n d) \<noteq> Some []"
    using action_column_time[of req] format_time_nonempty[of "clock_time req"]
    by (auto simp add: new_row_def)
  then have "times_nonempty (fst (post_attendance other req d))"
    using assms(2) unfolding e table_inv_def times_nonempty_def by simp
  then show ?thesis using pk by (simp add: table_inv_def)
next
  fix row
  assume e: "fst (post_attendance other req d) =
               d\<lparr>rows := map (\<lambda>r. if row_id r = row_id row
                                   then set_column (action_column req) (format_time (clock_time req)) r
                                   else r) (rows d)\<rparr>"
  have pk: "pk_unique (fst (post_attendance other req d))"
    unfolding e using assms(2) pk_unique_update[OF action_column_time[of req]]
    by (simp add: table_inv_def)
  have "\<And>r. checkIn r \<noteq> Some [] \<and> checkOut r \<noteq> Some [] \<Longrightarrow>
      checkIn (set_column (action_column req) (format_time (clock_time req)) r) \<noteq> Some []
    \<and> checkOut (set_column (action_column req) (format_time (clock_time req)) r) \<noteq> Some []"
    using action_column_time[of req] format_time_nonempty[of "clock_time req"] by auto
  then have "times_nonempty (fst (post_attendance other req d))"
    using assms(2) unfolding e table_inv_def times_nonempty_def
    by (auto simp add: list_all_iff)
  then show ?thesis using pk by (simp add: table_inv_def)
qed

lemma table_inv_run:
  "\<forall>req\<in>set reqs. submission req \<Longrightarrow> table_inv d \<Longrightarrow> table_inv (run_requests other reqs d)"
  by (induction reqs arbitrary: d) (simp_all add: table_inv_step)

lemma table_inv_empty: "table_inv empty_db"
  by (simp add: table_inv_def pk_unique_def times_nonempty_def empty_db_def)

lemma extends_step:
  assumes "submission req" "table_inv d"
  shows "extends d (fst (post_attendance other req d))"
  using post_submission_cases[OF assms(1), of other d]
proof (elim disjE exE conjE)
  assume "fst (post_attendance other req d) = d"
  then show ?thesis by (simp add: extends_refl)
next
  fix n
  assume e: "fst (post_attendance other req d)
              = d\<lparr>rows := rows d @ [new_row (action_column req) req n d], seq := next_id d\<rparr>"
  show ?thesis unfolding e extends_def by (simp add: nth_append keeps_refl)
next
  fix row
  assume l: "lookup req d = Some row"
    and nt: "\<not> truthy (time_column (action_column req) row)"
    and e: "fst (post_attendance other req d) =
               d\<lparr>rows := map (\<lambda>r. if row_id r = row_id row
                                   then set_column (action_column req) (format_time (clock_time req)) r
                                   else r) (rows d)\<rparr>"
  have mem: "row \<in> set (rows d)" using l by (rule lookup_Some_mem)
  have none: "time_column (action_column req) row = None"
    using not_truthy_None[OF _ mem action_column_time nt] assms(2) by (simp add: table_inv_def)
  have "keeps (rows d ! i) (if row_id (rows d ! i) = row_id row
           then set_column (action_column req) (format_time (clock_time req)) (rows d ! i)
           else rows d ! i)" if "i < length (rows d)" for i
  proof (cases "row_id (rows d ! i) = row_id row")
    case True
    have "rows d ! i = row"
      using pk_unique_same_id[OF _ _ mem True] that assms(2) by (simp add: table_inv_def)
    then show ?thesis using True keeps_set_column[OF action_column_time none] by simp
  next
    case False
    then show ?thesis by (simp add: keeps_refl)
  qed
  then show ?thesis unfolding e extends_def by simp
qed

lemma extends_run:
  "\<forall>req\<in>set reqs. submission req \<Longrightarrow> table_inv d \<Longrightarrow> extends d (run_requests other reqs d)"
proof (induction reqs arbitrary: d)
  case Nil
  then show ?case by (simp add: extends_refl)
next
  case (Cons req reqs)
  have "extends d (fst (post_attendance other req d))"
    using Cons.prems by (simp add: extends_step)
  moreover have "extends (fst (post_attendance other req d))
                   (run_requests other reqs (fst (post_attendance other req d)))"
    using Cons.prems by (intro Cons.IH) (simp_all add: table_inv_step)
  ultimately show ?case using extends_trans by simp
qed

lemma map_update_unique:
  assumes "distinct (map f xs)" "i < length xs"
  shows "map (\<lambda>r. if f r = f (xs ! i) then g r else r) xs = xs[i := g (xs ! i)]"
proof (rule nth_equalityI)
  show "length (map (\<lambda>r. if f r = f (xs ! i) then g r else r) xs) = length (xs[i := g (xs ! i)])"
    by simp
next
  fix j
  assume "j < length (map (\<lambda>r. if f r = f (xs ! i) then g r else r) xs)"
  then have j: "j < length xs" by simp
  have "f (xs ! j) = f (xs ! i) \<longleftrightarrow> j = i"
    using assms j by (metis length_map nth_eq_iff_index_eq nth_map)
  then show "map (\<lambda>r. if f r = f (xs ! i) then g r else r) xs ! j = xs[i := g (xs ! i)] ! j"
    using j by (auto simp add: nth_list_update)
qed

lemma example_table_inv: "table_inv example_table"
  by (simp add: table_inv_def pk_unique_def times_nonempty_def example_table_def)

text \<open>The sample table is what four submissions leave of the empty table.\<close>

lemma example_table_reached:
  "run_requests refuse_other
     [submit (Some ''Alice'') (Some ''checkIn'') (at_time 1 9 0),
      submit (Some ''Alice'') (Some ''checkOut'') (at_time 1 18 0),
      submit (Some ''Bob'') (Some ''checkIn'') (at_time 1 9 30),
      submit (Some ''Carol'') (Some ''checkOut'') (at_time 1 17 45)] empty_db = example_table"
  by (simp add: eval_defs example_table_def)

lemma lookup_None_iff:
  "body_employeeName req = Some n \<Longrightarrow>
   lookup req d = None \<longleftrightarrow>
     (\<forall>r\<in>set (rows d). \<not> (employeeName r = n \<and> date r = format_date (clock_date req)))"
  by (auto simp add: lookup_def find_None_iff)

subsection \<open>The insert branch\<close>

lemma insert_branch:
  assumes "submission req" and "body_employeeName req = Some n"
    and "\<not> get_err req" and "\<not> run_err req"
    and "\<forall>r\<in>set (rows d). \<not> (employeeName r = n \<and> date r = format_date (clock_date req))"
  shows "post_attendance other req d =
     (d\<lparr>rows := rows d @
          [\<lparr>row_id = next_id d, employeeName = n, date = format_date (clock_date req),
            checkIn = (if body_action req = Some ''checkIn''
                       then Some (format_time (clock_time req)) else None),
            checkOut = (if body_action req = Some ''checkOut''
                        then Some (format_time (clock_time req)) else None)\<rparr>],
        seq := next_id d\<rparr>,
      RenderSuccess)"
proof -
  have l: "lookup req d = None" using assms(2,5) by (simp add: lookup_None_iff)
  show ?thesis
    using assms(1,2,3,4)
    by (auto simp add: post_none[OF assms(3) l] db_run_insert_submission[OF assms(1)]
          action_column_def submission_def Let_def)
qed

lemma missing_name_branch:
  assumes "submission req" and "body_employeeName req = None" and "\<not> get_err req"
  shows "post_attendance other req d
           = (d, SendStatus 500 ''An error occurred while saving attendance.'')"
proof -
  have l: "lookup req d = None" using assms(2) by (simp add: lookup_def find_None_iff)
  show ?thesis
  proof (cases "run_err req")
    case True
    then show ?thesis by (simp add: post_none[OF assms(3) l] db_run_io_err)
  next
    case False
    then show ?thesis
      using assms(2) by (simp add: post_none[OF assms(3) l] db_run_insert_submission[OF assms(1)])
  qed
qed

subsection \<open>C2: the first submission of the day creates the record\<close>

text \<open>
  C2. When no row exists for the employee name and today's date, and the database does not
  fail, a check-in or check-out submission appends one row with a fresh id, that name and
  date, the time in the column the action names and NULL in the other time column, and the
  success page is rendered. The name is any string sent with the form.
\<close>

theorem first_submission_creates_record:
  assumes "submission req" and "body_employeeName req = Some n"
    and "\<not> get_err req" and "\<not> run_err req"
    and "\<forall>r\<in>set (rows d). \<not> (employeeName r = n \<and> date r = format_date (clock_date req))"
  shows "post_attendance other req d =
     (d\<lparr>rows := rows d @
          [\<lparr>row_id = next_id d, employeeName = n, date = format_date (clock_date req),
            checkIn = (if body_action req = Some ''checkIn''
                       then Some (format_time (clock_time req)) else None),
            checkOut = (if body_action req = Some ''checkOut''
                        then Some (format_time (clock_time req)) else None)\<rparr>],
        seq := next_id d\<rparr>,
      RenderSuccess)"
  using assms by (rule insert_branch)

theorem first_submission_witness:
  "submission (submit (Some ''Dave'') (Some ''checkOut'') (at_time 1 17 30)) \<and>
   post_attendance refuse_other (submit (Some ''Dave'') (Some ''checkOut'') (at_time 1 17 30)) example_table =
     (example_table\<lparr>rows := rows example_table @
          [\<lparr>row_id = 4, employeeName = ''Dave'', date = ''2024-01-01'',
            checkIn = None, checkOut = Some ''5:30:00 PM''\<rparr>], seq := 4\<rparr>, RenderSuccess)"
proof -
  let ?req = "submit (Some ''Dave'') (Some ''checkOut'') (at_time 1 17 30)"
  have s: "submission ?req" by (simp add: submission_def submit_def)
  have n: "body_employeeName ?req = Some ''Dave''" by (simp add: submit_def)
  have g: "\<not> get_err ?req" and r: "\<not> run_err ?req" by (simp_all add: submit_def)
  have f: "\<forall>r\<in>set (rows example_table).
            \<not> (employeeName r = ''Dave'' \<and> date r = format_date (clock_date ?req))"
    by (simp add: example_table_def)
  show ?thesis
    using first_submission_creates_record[OF s n g r f, of refuse_other] s
    by (simp add: submit_def at_time_def example_table_def next_id_def format_date_pad
          format_time_pad pad2_def pad4_def digit_char_def Let_def)
qed

subsection \<open>C3: a repeated submission is rejected\<close>

text \<open>
  C3. When a row exists for the employee name and today's date: if both times are set, the
  combined message is rendered whatever the action is (that test comes first); otherwise, if
  the time the action names is set, the message of that action is rendered. The table is
  unchanged in each case. The handler tests the truthiness of the stored value, which is
  "set" when no stored time is the empty string (\<open>times_nonempty\<close>; \<open>table_inv_run\<close> shows
  that submissions keep it, since the clock never formats a time as the empty string).
\<close>

theorem repeated_submission_rejected:
  assumes "\<not> get_err req" and "lookup req d = Some row" and "times_nonempty d"
  shows "(checkIn row \<noteq> None \<and> checkOut row \<noteq> None \<longrightarrow>
            post_attendance other req d
              = (d, RenderAlready ''You have already checked in and out for today.''))
       \<and> (checkIn row \<noteq> None \<and> checkOut row = None \<and> body_action req = Some ''checkIn'' \<longrightarrow>
            post_attendance other req d
              = (d, RenderAlready ''You have already checked in for today.''))
       \<and> (checkOut row \<noteq> None \<and> checkIn row = None \<and> body_action req = Some ''checkOut'' \<longrightarrow>
            post_attendance other req d
              = (d, RenderAlready ''You have already checked out for today.''))"
proof -
  have mem: "row \<in> set (rows d)" using assms(2) by (rule lookup_Some_mem)
  have i: "truthy (checkIn row) \<longleftrightarrow> checkIn row \<noteq> None"
    using assms(3) mem by (cases "checkIn row") (auto simp add: times_nonempty_def list_all_iff)
  have o: "truthy (checkOut row) \<longleftrightarrow> checkOut row \<noteq> None"
    using assms(3) mem by (cases "checkOut row") (auto simp add: times_nonempty_def list_all_iff)
  show ?thesis
    by (simp add: post_some[OF assms(1,2)] i o)
qed

theorem repeated_submission_witness:
  "post_attendance refuse_other (submit (Some ''Alice'') (Some ''checkOut'') (at_time 1 19 0)) example_table
     = (example_table, RenderAlready ''You have already checked in and out for today.'')
   \<and> post_attendance refuse_other (submit (Some ''Bob'') (Some ''checkIn'') (at_time 1 19 0)) example_table
     = (example_table, RenderAlready ''You have already checked in for today.'')
   \<and> post_attendance refuse_other (submit (Some ''Carol'') (Some ''checkOut'') (at_time 1 19 0)) example_table
     = (example_table, RenderAlready ''You have already checked out for today.'')"
proof -
  let ?alice = "submit (Some ''Alice'') (Some ''checkOut'') (at_time 1 19 0)"
  let ?bob = "submit (Some ''Bob'') (Some ''checkIn'') (at_time 1 19 0)"
  let ?carol = "submit (Some ''Carol'') (Some ''checkOut'') (at_time 1 19 0)"
  have t: "times_nonempty example_table"
    using example_table_inv by (simp add: table_inv_def)
  have la: "lookup ?alice example_table = Some (rows example_table ! 0)"
    by (simp add: lookup_def submit_def at_time_def example_table_def format_date_pad
          pad2_def pad4_def digit_char_def)
  have lb: "lookup ?bob example_table = Some (rows example_table ! 1)"
    by (simp add: lookup_def submit_def at_time_def example_table_def format_date_pad
          pad2_def pad4_def digit_char_def)
  have lc: "lookup ?carol example_table = Some (rows example_table ! 2)"
    by (simp add: lookup_def submit_def at_time_def example_table_def format_date_pad
          pad2_def pad4_def digit_char_def)
  have g: "\<not> get_err ?alice" "\<not> get_err ?bob" "\<not> get_err ?carol"
    by (simp_all add: submit_def)
  have a: "post_attendance refuse_other ?alice example_table
     = (example_table, RenderAlready ''You have already checked in and out for today.'')"
    using repeated_submission_rejected[OF g(1) la t, of refuse_other]
    by (simp add: example_table_def)
  have b: "post_attendance refuse_other ?bob example_table
     = (example_table, RenderAlready ''You have already checked in for today.'')"
    using repeated_submission_rejected[OF g(2) lb t, of refuse_other]
    by (simp add: example_table_def submit_def)
  have c: "post_attendance refuse_other ?carol example_table
     = (example_table, RenderAlready ''You have already checked out for today.'')"
    using repeated_submission_rejected[OF g(3) lc t, of refuse_other]
    by (simp add: example_table_def submit_def)
  show ?thesis using a b c by simp
qed

subsection \<open>C4: a recorded time is never overwritten\<close>

lemma update_branch:
  assumes "table_inv d" and "submission req" and "\<not> get_err req" and "\<not> run_err req"
    and "lookup req d = Some row" and "time_column (action_column req) row = None"
  shows "\<exists>i<length (rows d). rows d ! i = row \<and>
           post_attendance other req d =
             (d\<lparr>rows := (rows d)[i := set_column (action_column req) (format_time (clock_time req)) row]\<rparr>,
              RenderSuccess)"
proof -
  have mem: "row \<in> set (rows d)" using assms(5) by (rule lookup_Some_mem)
  then obtain i where i: "i < length (rows d)" "rows d ! i = row"
    by (auto simp add: in_set_conv_nth)
  have dist: "distinct (map row_id (rows d))"
    using assms(1) by (simp add: table_inv_def pk_unique_def)
  have m: "map (\<lambda>r. if row_id r = row_id row
                    then set_column (action_column req) (format_time (clock_time req)) r else r) (rows d)
           = (rows d)[i := set_column (action_column req) (format_time (clock_time req)) row]"
    using map_update_unique[OF dist i(1), of "set_column (action_column req) (format_time (clock_time req))"] i(2)
    by simp
  have nt: "\<not> (truthy (checkIn row) \<and> truthy (checkOut row))"
       "\<not> (body_action req = Some ''checkIn'' \<and> truthy (checkIn row))"
       "\<not> (body_action req = Some ''checkOut'' \<and> truthy (checkOut row))"
    using assms(2,6) by (auto simp add: action_column_def submission_def split: if_splits)
  have "post_attendance other req d =
          (d\<lparr>rows := map (\<lambda>r. if row_id r = row_id row
                    then set_column (action_column req) (format_time (clock_time req)) r else r) (rows d)\<rparr>,
           RenderSuccess)"
    using nt assms(4)
    by (simp add: post_some[OF assms(3,5)] db_run_update_submission[OF assms(2)])
  then show ?thesis using i m by auto
qed

text \<open>
  C4 says that a time, once set, is never overwritten, over every sequence of submissions.
  The handler refuses a second check-out by testing the row its lookup returned (line 93);
  the UPDATE of line 98 has no condition on the column. When two check-outs of Bob, who has
  checked in, are both looked up before the first callback runs, both pass the test: the
  first callback sets the check-out time to 6:00:00 PM, the second overwrites it with
  6:01:00 PM, and both requests get the success page. This is the same missing atomicity as
  in C1.
\<close>

theorem interleaved_check_outs_overwrite_the_time:
  "checkOut (rows (table (run_events other
       [Lookup (submit (Some ''Bob'') (Some ''checkOut'') (at_time 1 18 0)),
        Lookup (submit (Some ''Bob'') (Some ''checkOut'') (at_time 1 18 1)),
        Callback 0] (idle example_table))) ! 1) = Some ''6:00:00 PM''
   \<and> checkOut (rows (table (run_events other
       [Lookup (submit (Some ''Bob'') (Some ''checkOut'') (at_time 1 18 0)),
        Lookup (submit (Some ''Bob'') (Some ''checkOut'') (at_time 1 18 1)),
        Callback 0, Callback 0] (idle example_table))) ! 1) = Some ''6:01:00 PM''
   \<and> sent (run_events other
       [Lookup (submit (Some ''Bob'') (Some ''checkOut'') (at_time 1 18 0)),
        Lookup (submit (Some ''Bob'') (Some ''checkOut'') (at_time 1 18 1)),
        Callback 0, Callback 0] (idle example_table))
     = [RenderSuccess, RenderSuccess]"
  by (simp add: run_events_def idle_def submit_def at_time_def on_row_def db_get_def db_run_def
      sqlInsert_def sqlUpdate_def example_table_def format_date_pad format_time_pad pad2_def pad4_def
      digit_char_def next_id_def Let_def)

text \<open>
  When each request is handled to its end before the next one is looked up, on a table
  whose ids are unique and whose stored times are not empty (every table reached from the
  empty one in that way is such a table, \<open>table_inv_run\<close>): after any further sequence of
  submissions every row is still at its position with its id, name and date, and a time
  that was set has the value it had. And the update branch, taken when the row found has
  no time in the column the action names, writes that one column of that one row, leaves
  every other row and column as it was, and renders the success page.
\<close>

theorem recorded_times_are_never_overwritten:
  assumes "table_inv d" and "\<forall>req\<in>set reqs. submission req"
  shows "(\<forall>i<length (rows d).
            i < length (rows (run_requests other reqs d))
          \<and> row_id (rows (run_requests other reqs d) ! i) = row_id (rows d ! i)
          \<and> employeeName (rows (run_requests other reqs d) ! i) = employeeName (rows d ! i)
          \<and> date (rows (run_requests other reqs d) ! i) = date (rows d ! i)
          \<and> (checkIn (rows d ! i) \<noteq> None \<longrightarrow>
               checkIn (rows (run_requests other reqs d) ! i) = checkIn (rows d ! i))
          \<and> (checkOut (rows d ! i) \<noteq> None \<longrightarrow>
               checkOut (rows (run_requests other reqs d) ! i) = checkOut (rows d ! i)))
       \<and> (\<forall>req row. \<not> get_err req \<and> \<not> run_err req \<and> lookup req d = Some row \<longrightarrow>
            (body_action req = Some ''checkIn'' \<and> checkIn row = None \<longrightarrow>
               (\<exists>i<length (rows d). rows d ! i = row \<and>
                  post_attendance other req d =
                    (d\<lparr>rows := (rows d)[i := row\<lparr>checkIn := Some (format_time (clock_time req))\<rparr>]\<rparr>,
                     RenderSuccess)))
          \<and> (body_action req = Some ''checkOut'' \<and> checkOut row = None \<longrightarrow>
               (\<exists>i<length (rows d). rows d ! i = row \<and>
                  post_attendance other req d =
                    (d\<lparr>rows := (rows d)[i := row\<lparr>checkOut := Some (format_time (clock_time req))\<rparr>]\<rparr>,
                     RenderSuccess))))"
proof (intro conjI allI impI)
  fix i
  assume i: "i < length (rows d)"
  have e: "extends d (run_requests other reqs d)"
    using assms(2,1) by (rule extends_run)
  then have k: "keeps (rows d ! i) (rows (run_requests other reqs d) ! i)"
    and len: "length (rows d) \<le> length (rows (run_requests other reqs d))"
    using i by (simp_all add: extends_def)
  show "i < length (rows (run_requests other reqs d))" using i len by simp
  show "row_id (rows (run_requests other reqs d) ! i) = row_id (rows d ! i)"
    using k by (simp add: keeps_def)
  show "employeeName (rows (run_requests other reqs d) ! i) = employeeName (rows d ! i)"
    using k by (simp add: keeps_def)
  show "date (rows (run_requests other reqs d) ! i) = date (rows d ! i)"
    using k by (simp add: keeps_def)
  show "checkIn (rows (run_requests other reqs d) ! i) = checkIn (rows d ! i)"
    if "checkIn (rows d ! i) \<noteq> None"
    using k that by (simp add: keeps_def)
  show "checkOut (rows (run_requests other reqs d) ! i) = checkOut (rows d ! i)"
    if "checkOut (rows d ! i) \<noteq> None"
    using k that by (simp add: keeps_def)
next
  fix req row
  assume h: "\<not> get_err req \<and> \<not> run_err req \<and> lookup req d = Some row"
    and a: "body_action req = Some ''checkIn'' \<and> checkIn row = None"
  have s: "submission req" using a by (simp add: submission_def)
  have c: "action_column req = CheckIn" using a by (simp add: action_column_def)
  show "\<exists>i<length (rows d). rows d ! i = row \<and>
          post_attendance other req d =
            (d\<lparr>rows := (rows d)[i := row\<lparr>checkIn := Some (format_time (clock_time req))\<rparr>]\<rparr>,
             RenderSuccess)"
    using update_branch[OF assms(1) s, of row other] h a by (simp add: c)
next
  fix req row
  assume h: "\<not> get_err req \<and> \<not> run_err req \<and> lookup req d = Some row"
    and a: "body_action req = Some ''checkOut'' \<and> checkOut row = None"
  have s: "submission req" using a by (simp add: submission_def)
  have c: "action_column req = CheckOut" using a by (simp add: action_column_def)
  show "\<exists>i<length (rows d). rows d ! i = row \<and>
          post_attendance other req d =
            (d\<lparr>rows := (rows d)[i := row\<lparr>checkOut := Some (format_time (clock_time req))\<rparr>]\<rparr>,
             RenderSuccess)"
    using update_branch[OF assms(1) s, of row other] h a by (simp add: c)
qed

theorem recorded_times_witness:
  "table_inv example_table
   \<and> list_all submission
       [submit (Some ''Bob'') (Some ''checkIn'') (at_time 1 19 0),
        submit (Some ''Bob'') (Some ''checkOut'') (at_time 1 19 5),
        submit (Some ''Bob'') (Some ''checkOut'') (at_time 1 19 10)]
   \<and> rows (run_requests refuse_other
       [submit (Some ''Bob'') (Some ''checkIn'') (at_time 1 19 0),
        submit (Some ''Bob'') (Some ''checkOut'') (at_time 1 19 5),
        submit (Some ''Bob'') (Some ''checkOut'') (at_time 1 19 10)] example_table)
     = (rows example_table)
         [1 := (rows example_table ! 1)\<lparr>checkOut := Some ''7:05:00 PM''\<rparr>]
   \<and> checkIn (rows (run_requests refuse_other
       [submit (Some ''Bob'') (Some ''checkIn'') (at_time 1 19 0),
        submit (Some ''Bob'') (Some ''checkOut'') (at_time 1 19 5),
        submit (Some ''Bob'') (Some ''checkOut'') (at_time 1 19 10)] example_table) ! 1)
     = Some ''9:30:00 AM''
   \<and> post_attendance refuse_other
        (submit (Some ''Bob'') (Some ''checkOut'') (at_time 1 19 5)) example_table
     = (example_table\<lparr>rows := (rows example_table)
          [1 := (rows example_table ! 1)\<lparr>checkOut := Some ''7:05:00 PM''\<rparr>]\<rparr>, RenderSuccess)"
proof -
  let ?reqs = "[submit (Some ''Bob'') (Some ''checkIn'') (at_time 1 19 0),
        submit (Some ''Bob'') (Some ''checkOut'') (at_time 1 19 5),
        submit (Some ''Bob'') (Some ''checkOut'') (at_time 1 19 10)]"
  have s: "\<forall>req\<in>set ?reqs. submission req"
    by (simp add: submit_def submission_def)
  have i: "1 < length (rows example_table)"
    by (simp add: example_table_def)
  have set_before: "checkIn (rows example_table ! 1) \<noteq> None"
    by (simp add: example_table_def)
  have kept: "checkIn (rows (run_requests refuse_other ?reqs example_table) ! 1)
                = checkIn (rows example_table ! 1)"
    using recorded_times_are_never_overwritten[OF example_table_inv s, of refuse_other]
      i set_before by blast
  have run: "rows (run_requests refuse_other ?reqs example_table)
     = (rows example_table)[1 := (rows example_table ! 1)\<lparr>checkOut := Some ''7:05:00 PM''\<rparr>]"
    by (simp add: eval_defs example_table_def)
  have upd: "post_attendance refuse_other
        (submit (Some ''Bob'') (Some ''checkOut'') (at_time 1 19 5)) example_table
     = (example_table\<lparr>rows := (rows example_table)
          [1 := (rows example_table ! 1)\<lparr>checkOut := Some ''7:05:00 PM''\<rparr>]\<rparr>, RenderSuccess)"
    by (simp add: eval_defs example_table_def)
  show ?thesis
    using example_table_inv s kept run upd
    by (simp add: list_all_iff example_table_def)
qed

subsection \<open>C5: the column written by the statements\<close>

text \<open>
  C5 says that the column the INSERT and UPDATE statements write is one of checkIn and
  checkOut for every value of the action parameter. The handler concatenates the
  parameter into the statement text (lines 74 and 98) without looking at it. With the
  action \<^verbatim>\<open>employeeName\<close>, submitted for an employee who has checked in today, neither
  rejection test fires, the statement is \<^verbatim>\<open>UPDATE attendance SET employeeName = ? WHERE id = ?\<close>
  and the name of the row is replaced by the time of day. This holds whatever SQLite does
  with statements outside the model.
\<close>

theorem action_text_is_written_into_the_statement:
  "sqlUpdate (js_string (body_action (submit (Some ''Bob'') (Some ''employeeName'') (at_time 1 18 0))))
     = ''UPDATE attendance SET employeeName = ? WHERE id = ?''
   \<and> post_attendance other (submit (Some ''Bob'') (Some ''employeeName'') (at_time 1 18 0)) example_table
     = (example_table\<lparr>rows := (rows example_table)
          [1 := (rows example_table ! 1)\<lparr>employeeName := ''6:00:00 PM''\<rparr>]\<rparr>, RenderSuccess)"
  by (simp add: submit_def at_time_def post_attendance_def on_row_def db_get_def db_run_def
      sqlInsert_def sqlUpdate_def format_date_pad format_time_pad pad2_def pad4_def
      digit_char_def Let_def example_table_def)

subsection \<open>C6: no validation before the lookup\<close>

text \<open>
  C6 says that a request with a missing or empty employee name is refused with a
  validation error before the table is read or written. The handler has no validation:
  with the empty name and the action \<^verbatim>\<open>checkIn\<close> on the empty table it inserts a row whose
  name is empty and renders the success page.
\<close>

theorem empty_name_creates_a_record:
  "post_attendance refuse_other (submit (Some []) (Some ''checkIn'') (at_time 1 9 0)) empty_db =
     (\<lparr>rows = [\<lparr>row_id = 1, employeeName = [], date = ''2024-01-01'',
                 checkIn = Some ''9:00:00 AM'', checkOut = None\<rparr>], seq = 1\<rparr>,
      RenderSuccess)"
  by (simp add: eval_defs)

text \<open>
  C6, as the code has it. Every request starts with the lookup: when the lookup fails the
  response is its 500 message, whatever the fields of the request are. A submission with
  the empty name is handled like one with any other name: with no row for the empty name
  and today's date (and no database failure) a row with the empty name is inserted and the
  success page rendered. A submission with no name at all finds no row (NULL equals
  nothing), its INSERT is refused (NOT NULL), the response is the 500 message of the
  insert, and the table is unchanged.
\<close>

theorem no_validation_before_the_lookup:
  "(get_err req \<longrightarrow>
      post_attendance other req d
        = (d, SendStatus 500 ''An error occurred while processing your request.''))
   \<and> (submission req \<and> body_employeeName req = Some [] \<and> \<not> get_err req \<and> \<not> run_err req
        \<and> (\<forall>r\<in>set (rows d). \<not> (employeeName r = [] \<and> date r = format_date (clock_date req))) \<longrightarrow>
      post_attendance other req d =
        (d\<lparr>rows := rows d @
           [\<lparr>row_id = next_id d, employeeName = [], date = format_date (clock_date req),
             checkIn = (if body_action req = Some ''checkIn''
                        then Some (format_time (clock_time req)) else None),
             checkOut = (if body_action req = Some ''checkOut''
                         then Some (format_time (clock_time req)) else None)\<rparr>],
           seq := next_id d\<rparr>,
         RenderSuccess))
   \<and> (submission req \<and> body_employeeName req = None \<and> \<not> get_err req \<longrightarrow>
      post_attendance other req d
        = (d, SendStatus 500 ''An error occurred while saving attendance.''))"
  using post_get_err[of req other d] insert_branch[of req "[]" d other]
    missing_name_branch[of req other d]
  by blast

theorem no_validation_witness:
  "post_attendance refuse_other
      ((submit (Some []) (Some ''bogus'') (at_time 1 9 0))\<lparr>get_err := True\<rparr>) example_table
     = (example_table, SendStatus 500 ''An error occurred while processing your request.'')
   \<and> post_attendance refuse_other (submit (Some []) (Some ''checkOut'') (at_time 1 18 0)) example_table
     = (example_table\<lparr>rows := rows example_table @
          [\<lparr>row_id = 4, employeeName = [], date = ''2024-01-01'',
            checkIn = None, checkOut = Some ''6:00:00 PM''\<rparr>], seq := 4\<rparr>, RenderSuccess)
   \<and> post_attendance refuse_other (submit None (Some ''checkIn'') (at_time 1 9 0)) example_table
     = (example_table, SendStatus 500 ''An error occurred while saving attendance.'')"
proof -
  let ?bogus = "(submit (Some []) (Some ''bogus'') (at_time 1 9 0))\<lparr>get_err := True\<rparr>"
  let ?empty = "submit (Some []) (Some ''checkOut'') (at_time 1 18 0)"
  let ?missing = "submit None (Some ''checkIn'') (at_time 1 9 0)"
  have a: "get_err ?bogus" by (simp add: submit_def)
  have b: "submission ?empty \<and> body_employeeName ?empty = Some [] \<and> \<not> get_err ?empty
        \<and> \<not> run_err ?empty
        \<and> (\<forall>r\<in>set (rows example_table).
              \<not> (employeeName r = [] \<and> date r = format_date (clock_date ?empty)))"
    by (simp add: submit_def submission_def example_table_def)
  have c: "submission ?missing \<and> body_employeeName ?missing = None \<and> \<not> get_err ?missing"
    by (simp add: submit_def submission_def)
  have 1: "post_attendance refuse_other ?bogus example_table
     = (example_table, SendStatus 500 ''An error occurred while processing your request.'')"
    using no_validation_before_the_lookup[of ?bogus refuse_other example_table] a by blast
  have 2: "post_attendance refuse_other ?empty example_table =
        (example_table\<lparr>rows := rows example_table @
           [\<lparr>row_id = next_id example_table, employeeName = [], date = format_date (clock_date ?empty),
             checkIn = (if body_action ?empty = Some ''checkIn''
                        then Some (format_time (clock_time ?empty)) else None),
             checkOut = (if body_action ?empty = Some ''checkOut''
                         then Some (format_time (clock_time ?empty)) else None)\<rparr>],
           seq := next_id example_table\<rparr>,
         RenderSuccess)"
    using no_validation_before_the_lookup[of ?empty refuse_other example_table] b by blast
  have 3: "post_attendance refuse_other ?missing example_table
     = (example_table, SendStatus 500 ''An error occurred while saving attendance.'')"
    using no_validation_before_the_lookup[of ?missing refuse_other example_table] c by blast
  have ev: "next_id example_table = 4" "format_date (clock_date ?empty) = ''2024-01-01''"
    "format_time (clock_time ?empty) = ''6:00:00 PM''" "body_action ?empty = Some ''checkOut''"
    by (simp_all add: submit_def at_time_def example_table_def next_id_def format_date_pad
          format_time_pad pad2_def pad4_def digit_char_def Let_def)
  show ?thesis using 1 2 3 unfolding ev by simp
qed

subsection \<open>The order of the range query\<close>

lemma row_le_total: "\<not> row_le a b \<Longrightarrow> row_le b a"
  by (auto simp add: row_le_def)

lemma row_le_trans: "row_le a b \<Longrightarrow> row_le b c \<Longrightarrow> row_le a c"
  by (auto simp add: row_le_def)

lemma mset_insert_sorted: "mset (insert_sorted r xs) = add_mset r (mset xs)"
  by (induction xs) auto

lemma set_insert_sorted: "set (insert_sorted r xs) = insert r (set xs)"
  by (induction xs) auto

lemma sorted_insert_sorted:
  "sorted_wrt row_le xs \<Longrightarrow> sorted_wrt row_le (insert_sorted r xs)"
proof (induction xs)
  case Nil
  then show ?case by simp
next
  case (Cons x xs)
  show ?case
  proof (cases "row_le r x")
    case True
    then have "\<forall>y\<in>set xs. row_le r y" using Cons.prems row_le_trans by auto
    then show ?thesis using True Cons.prems by simp
  next
    case False
    then have "row_le x r" by (rule row_le_total)
    then show ?thesis using False Cons by (auto simp add: set_insert_sorted)
  qed
qed

lemma mset_order_by: "mset (order_by xs) = mset xs"
  unfolding order_by_def by (induction xs) (simp_all add: mset_insert_sorted)

lemma sorted_order_by: "sorted_wrt row_le (order_by xs)"
  unfolding order_by_def by (induction xs) (simp_all add: sorted_insert_sorted)

lemma set_order_by: "set (order_by xs) = set xs"
  using mset_order_by[of xs] by (metis set_mset_mset)

lemma between_Some: "between x (Some a) (Some b) = (a \<le> x \<and> x \<le> b)"
  by simp

lemma mset_queryRange:
  "mset (queryRange d (Some s) (Some e)) = mset (filter (\<lambda>r. s \<le> date r \<and> date r \<le> e) (rows d))"
  by (simp add: queryRange_def mset_order_by)

lemma distinct_keys_order_by:
  "distinct (map f xs) \<Longrightarrow> distinct (map f (order_by xs))"
proof -
  assume d: "distinct (map f xs)"
  have "mset (map f (order_by xs)) = mset (map f xs)"
    by (simp add: mset_order_by)
  then show ?thesis using d by (metis mset_eq_imp_distinct_iff)
qed

lemma sorted_strict:
  "sorted_wrt row_le xs \<Longrightarrow> distinct (map (\<lambda>r. (employeeName r, date r)) xs) \<Longrightarrow> sorted_wrt row_lt xs"
proof (induction xs)
  case Nil
  then show ?case by simp
next
  case (Cons x xs)
  have "row_lt x y" if "y \<in> set xs" for y
  proof -
    have le: "row_le x y" using Cons.prems(1) that by simp
    have "(employeeName x, date x) \<noteq> (employeeName y, date y)"
      using Cons.prems(2) that by auto
    then show ?thesis using le by (auto simp add: row_le_def row_lt_def)
  qed
  then show ?case using Cons by simp
qed

lemma queryRange_strict:
  assumes "unique_keys d"
  shows "sorted_wrt row_lt (queryRange d s e)"
proof -
  have "distinct (map (\<lambda>r. (employeeName r, date r)) (filter (\<lambda>r. between (date r) s e) (rows d)))"
    using assms unfolding unique_keys_def by (rule distinct_map_filter)
  then have "distinct (map (\<lambda>r. (employeeName r, date r)) (queryRange d s e))"
    unfolding queryRange_def by (rule distinct_keys_order_by)
  then show ?thesis using sorted_order_by[of "filter (\<lambda>r. between (date r) s e) (rows d)"]
    unfolding queryRange_def by (intro sorted_strict)
qed

subsection \<open>The order of formatted dates\<close>

lemma digit_cases:
  "(a::nat) < 10 \<Longrightarrow>
     a = 0 \<or> a = 1 \<or> a = 2 \<or> a = 3 \<or> a = 4 \<or> a = 5 \<or> a = 6 \<or> a = 7 \<or> a = 8 \<or> a = 9"
  by arith

lemma of_char_digit: "of_char (digit_char a) = (48 + a mod 10 :: nat)"
proof -
  have "a mod 10 < 10" by simp
  then have "a mod 10 = 0 \<or> a mod 10 = 1 \<or> a mod 10 = 2 \<or> a mod 10 = 3 \<or> a mod 10 = 4
     \<or> a mod 10 = 5 \<or> a mod 10 = 6 \<or> a mod 10 = 7 \<or> a mod 10 = 8 \<or> a mod 10 = 9"
    by (rule digit_cases)
  then show ?thesis
    by (elim disjE) (simp_all add: digit_char_def)
qed

lemma digit_char_less: "digit_char a < digit_char b \<longleftrightarrow> a mod 10 < b mod 10"
  by (simp add: less_char_def of_char_digit)

lemma digit_char_eq: "digit_char a = digit_char b \<longleftrightarrow> a mod 10 = b mod 10"
proof
  assume "digit_char a = digit_char b"
  then have "(of_char (digit_char a) :: nat) = of_char (digit_char b)" by simp
  then show "a mod 10 = b mod 10" by (simp add: of_char_digit)
next
  assume "a mod 10 = b mod 10"
  then show "digit_char a = digit_char b" by (simp add: digit_char_def)
qed

lemma same_quotient_le:
  assumes "(a::nat) div k = b div k" and "b mod k \<le> a mod k"
  shows "b \<le> a"
proof -
  have "b = k * (b div k) + b mod k" by simp
  also have "\<dots> \<le> k * (b div k) + a mod k" using assms(2) by (rule add_left_mono)
  also have "\<dots> = k * (a div k) + a mod k" by (simp only: assms(1))
  also have "\<dots> = a" by simp
  finally show ?thesis .
qed

lemma split_less:
  "(a::nat) < b \<longleftrightarrow> a div k < b div k \<or> (a div k = b div k \<and> a mod k < b mod k)"
proof
  assume ab: "a < b"
  then have le: "a div k \<le> b div k" by (simp add: div_le_mono)
  show "a div k < b div k \<or> (a div k = b div k \<and> a mod k < b mod k)"
  proof (cases "a div k = b div k")
    case True
    have "a mod k < b mod k"
    proof (rule ccontr)
      assume "\<not> a mod k < b mod k"
      then have "b mod k \<le> a mod k" by simp
      with True have "b \<le> a" by (rule same_quotient_le)
      then show False using ab by simp
    qed
    then show ?thesis using True by simp
  next
    case False
    then show ?thesis using le by simp
  qed
next
  assume h: "a div k < b div k \<or> (a div k = b div k \<and> a mod k < b mod k)"
  show "a < b"
  proof (rule ccontr)
    assume "\<not> a < b"
    then have ba: "b \<le> a" by simp
    then have le: "b div k \<le> a div k" by (simp add: div_le_mono)
    from h show False
    proof
      assume "a div k < b div k"
      then show False using le by simp
    next
      assume e: "a div k = b div k \<and> a mod k < b mod k"
      then have "b div k = a div k" and "a mod k \<le> b mod k" by simp_all
      then have "a \<le> b" by (rule same_quotient_le)
      then have "a = b" using ba by simp
      then show False using e by simp
    qed
  qed
qed

lemma split_eq: "(a::nat) = b \<longleftrightarrow> a div k = b div k \<and> a mod k = b mod k"
  by (metis div_mult_mod_eq)

lemma pad2_less: "a < 100 \<Longrightarrow> b < 100 \<Longrightarrow> pad2 a < pad2 b \<longleftrightarrow> a < b"
proof -
  assume "a < 100" "b < 100"
  then have "a div 10 < 10" "b div 10 < 10" by simp_all
  then have m: "a div 10 mod 10 = a div 10" "b div 10 mod 10 = b div 10" by simp_all
  show ?thesis
    unfolding pad2_def split_less[of a b 10]
    by (simp add: digit_char_less digit_char_eq m)
qed

lemma pad2_eq: "a < 100 \<Longrightarrow> b < 100 \<Longrightarrow> pad2 a = pad2 b \<longleftrightarrow> a = b"
proof -
  assume "a < 100" "b < 100"
  then have "a div 10 < 10" "b div 10 < 10" by simp_all
  then have m: "a div 10 mod 10 = a div 10" "b div 10 mod 10 = b div 10" by simp_all
  show ?thesis
    unfolding pad2_def split_eq[of a b 10]
    by (simp add: digit_char_eq m)
qed

lemma length_pad2: "length (pad2 n) = 2"
  by (simp add: pad2_def)

lemma pad4_pad2: "pad4 a = pad2 (a div 100) @ pad2 (a mod 100)"
proof -
  have 1: "a div 100 div 10 = a div 1000" by (simp add: div_mult2_eq)
  have "a mod (10 * 10) = 10 * (a div 10 mod 10) + a mod 10" by (rule mod_mult2_eq)
  then have "a mod 100 div 10 = (10 * (a div 10 mod 10) + a mod 10) div 10" by simp
  also have "\<dots> = a div 10 mod 10" by simp
  finally have 2: "a mod 100 div 10 mod 10 = a div 10 mod 10" by simp
  have 3: "a mod 100 mod 10 = a mod 10" by (simp add: mod_mod_cancel)
  show ?thesis
    by (simp add: pad4_def pad2_def 1 digit_char_eq 2 3)
qed

lemma lex_append_less:
  "length xs = length ys \<Longrightarrow>
     (xs @ us < ys @ vs) = (xs < ys \<or> (xs = ys \<and> us < (vs :: 'a::linorder list)))"
  by (induction xs ys rule: list_induct2) auto

lemma pad4_less: "a < 10000 \<Longrightarrow> b < 10000 \<Longrightarrow> pad4 a < pad4 b \<longleftrightarrow> a < b"
proof -
  assume "a < 10000" "b < 10000"
  then have h: "a div 100 < 100" "b div 100 < 100" "a mod 100 < 100" "b mod 100 < 100"
    by simp_all
  have l: "length (pad2 (a div 100)) = length (pad2 (b div 100))" by (simp add: pad2_def)
  show ?thesis
    unfolding pad4_pad2 lex_append_less[OF l] split_less[of a b 100]
    using h by (simp add: pad2_less pad2_eq)
qed

lemma pad4_eq: "a < 10000 \<Longrightarrow> b < 10000 \<Longrightarrow> pad4 a = pad4 b \<longleftrightarrow> a = b"
proof -
  assume "a < 10000" "b < 10000"
  then have h: "a div 100 < 100" "b div 100 < 100" "a mod 100 < 100" "b mod 100 < 100"
    by simp_all
  show ?thesis
    unfolding pad4_pad2 split_eq[of a b 100]
    using h by (simp add: pad2_eq length_pad2)
qed

lemma format_date_less:
  assumes "calendar a" "calendar b"
  shows "format_date a < format_date b \<longleftrightarrow>
     (m_year a < m_year b
      \<or> (m_year a = m_year b
          \<and> (m_month a < m_month b \<or> (m_month a = m_month b \<and> m_day a < m_day b))))"
proof -
  have y: "m_year a < 10000" "m_year b < 10000"
    and mo: "m_month a < 100" "m_month b < 100"
    and d: "m_day a < 100" "m_day b < 100"
    using assms by (simp_all add: calendar_def)
  have l4: "length (pad4 (m_year a)) = length (pad4 (m_year b))" by (simp add: pad4_def)
  have l2: "length (pad2 (m_month a)) = length (pad2 (m_month b))" by (simp add: pad2_def)
  show ?thesis
    unfolding format_date_pad[OF y(1) mo(1) d(1)] format_date_pad[OF y(2) mo(2) d(2)]
      lex_append_less[OF l4]
    by (simp add: lex_append_less[OF l2] pad4_less[OF y] pad4_eq[OF y] pad2_less[OF mo]
        pad2_eq[OF mo] pad2_less[OF d])
qed

lemma format_date_eq:
  assumes "calendar a" "calendar b"
  shows "format_date a = format_date b \<longleftrightarrow>
     (m_year a = m_year b \<and> m_month a = m_month b \<and> m_day a = m_day b)"
proof -
  have y: "m_year a < 10000" "m_year b < 10000"
    and mo: "m_month a < 100" "m_month b < 100"
    and d: "m_day a < 100" "m_day b < 100"
    using assms by (simp_all add: calendar_def)
  have l4: "length (pad4 (m_year a)) = length (pad4 (m_year b))" by (simp add: pad4_def)
  have l2: "length (pad2 (m_month a)) = length (pad2 (m_month b))" by (simp add: pad2_def)
  show ?thesis
    unfolding format_date_pad[OF y(1) mo(1) d(1)] format_date_pad[OF y(2) mo(2) d(2)]
    by (simp add: l4 l2 pad4_eq[OF y] pad2_eq[OF mo] pad2_eq[OF d])
qed

lemma format_date_le:
  "calendar a \<Longrightarrow> calendar b \<Longrightarrow> format_date a \<le> format_date b \<longleftrightarrow> day_le a b"
  unfolding list_le_def by (auto simp add: format_date_less format_date_eq day_le_def)

subsection \<open>C7: the range query\<close>

text \<open>
  C7. For bounds \<open>s\<close> and \<open>e\<close>, the query returns exactly the rows whose date is between
  them, bounds included (as multisets: each row once); the result is ordered by date
  descending, then by employee name ascending; when no two rows of the table share name and
  date the order is strict, so the result is determined; and when no row is in range the
  result is the empty list and \<^verbatim>\<open>db.all\<close> reports no error. Dates are compared as text; for
  dates the clock formats (and bounds of that format) this is the order of the calendar.
\<close>

theorem queryRange_selects_and_orders:
  "mset (queryRange d (Some s) (Some e))
     = mset (filter (\<lambda>r. s \<le> date r \<and> date r \<le> e) (rows d))
   \<and> sorted_wrt (\<lambda>a b. date b < date a \<or> (date a = date b \<and> employeeName a \<le> employeeName b))
        (queryRange d (Some s) (Some e))
   \<and> (unique_keys d \<longrightarrow>
        sorted_wrt (\<lambda>a b. date b < date a \<or> (date a = date b \<and> employeeName a < employeeName b))
          (queryRange d (Some s) (Some e)))
   \<and> ((\<forall>r\<in>set (rows d). \<not> (s \<le> date r \<and> date r \<le> e)) \<longrightarrow>
        queryRange d (Some s) (Some e) = [] \<and> db_all False d (Some s) (Some e) = Inr [])
   \<and> (calendar lo \<and> calendar m \<and> calendar hi \<longrightarrow>
        between (format_date m) (Some (format_date lo)) (Some (format_date hi))
          = (day_le lo m \<and> day_le m hi))"
proof (intro conjI impI)
  show "mset (queryRange d (Some s) (Some e))
     = mset (filter (\<lambda>r. s \<le> date r \<and> date r \<le> e) (rows d))"
    by (rule mset_queryRange)
  have "sorted_wrt row_le (queryRange d (Some s) (Some e))"
    unfolding queryRange_def by (rule sorted_order_by)
  then show "sorted_wrt (\<lambda>a b. date b < date a \<or> (date a = date b \<and> employeeName a \<le> employeeName b))
        (queryRange d (Some s) (Some e))"
    by (simp add: row_le_def[abs_def])
  show "sorted_wrt (\<lambda>a b. date b < date a \<or> (date a = date b \<and> employeeName a < employeeName b))
          (queryRange d (Some s) (Some e))" if "unique_keys d"
    using queryRange_strict[OF that, of "Some s" "Some e"] by (simp add: row_lt_def[abs_def])
  show "between (format_date m) (Some (format_date lo)) (Some (format_date hi))
          = (day_le lo m \<and> day_le m hi)" if "calendar lo \<and> calendar m \<and> calendar hi"
    using that by (simp add: format_date_le)
  assume n: "\<forall>r\<in>set (rows d). \<not> (s \<le> date r \<and> date r \<le> e)"
  then have "filter (\<lambda>r. s \<le> date r \<and> date r \<le> e) (rows d) = []"
    by (simp add: filter_empty_conv)
  then have "mset (queryRange d (Some s) (Some e)) = {#}"
    by (simp add: mset_queryRange)
  then show q: "queryRange d (Some s) (Some e) = []" by simp
  then show "db_all False d (Some s) (Some e) = Inr []" by (simp add: db_all_def)
qed

lemma example_week_query:
  "queryRange example_week (Some ''2024-01-01'') (Some ''2024-01-02'') =
     [rows example_week ! 3, rows example_week ! 2, rows example_week ! 1]"
  by (simp add: queryRange_def order_by_def row_le_def example_week_def)

lemma example_week_unique: "unique_keys example_week"
  by (simp add: unique_keys_def example_week_def)

lemma example_week_empty_range:
  "\<forall>r\<in>set (rows example_week). \<not> (''2024-02-01'' \<le> date r \<and> date r \<le> ''2024-02-29'')"
  by (simp add: example_week_def)

theorem queryRange_witness:
  "unique_keys example_week
   \<and> calendar (at_time 1 0 0) \<and> calendar (at_time 2 23 59)
   \<and> queryRange example_week (Some ''2024-01-01'') (Some ''2024-01-02'')
       = [rows example_week ! 3, rows example_week ! 2, rows example_week ! 1]
   \<and> sorted_wrt (\<lambda>a b. date b < date a \<or> (date a = date b \<and> employeeName a < employeeName b))
       (queryRange example_week (Some ''2024-01-01'') (Some ''2024-01-02''))
   \<and> queryRange example_week (Some ''2024-02-01'') (Some ''2024-02-29'') = []
   \<and> db_all False example_week (Some ''2024-02-01'') (Some ''2024-02-29'') = Inr []
   \<and> between (format_date (at_time 2 23 59))
        (Some (format_date (at_time 1 0 0))) (Some (format_date (at_time 2 23 59)))"
proof -
  have c: "calendar (at_time 1 0 0)" "calendar (at_time 2 23 59)"
    by (simp_all add: calendar_def at_time_def)
  have dl: "day_le (at_time 1 0 0) (at_time 2 23 59)" "day_le (at_time 2 23 59) (at_time 2 23 59)"
    by (simp_all add: day_le_def at_time_def)
  have b: "between (format_date (at_time 2 23 59))
        (Some (format_date (at_time 1 0 0))) (Some (format_date (at_time 2 23 59)))"
    using queryRange_selects_and_orders
            [of example_week "''2024-01-01''" "''2024-01-02''" "at_time 1 0 0" "at_time 2 23 59"
                "at_time 2 23 59"] c dl
    by blast
  show ?thesis
    using queryRange_selects_and_orders[of example_week "''2024-01-01''" "''2024-01-02''"]
      queryRange_selects_and_orders[of example_week "''2024-02-01''" "''2024-02-29''"]
      example_week_unique example_week_empty_range example_week_query c b
    by blast
qed

subsection \<open>C8: the export is "not found" or a table with the fixed columns\<close>

lemma download_not_found:
  "\<not> all_err env \<Longrightarrow> queryRange d (query_startDate q) (query_endDate q) = [] \<Longrightarrow>
   get_download_report env q d file
     = (file, SendStatus 404 ''No records found for the selected date range.'')"
  by (simp add: get_download_report_def db_all_def)

lemma writeRecords_table:
  "writeRecords False rs =
     Inr \<lparr>titles = [''ID'', ''Employee Name'', ''Date'', ''Check In'', ''Check Out''],
          records = map (\<lambda>r. [SqlInt (row_id r), SqlText (employeeName r), SqlText (date r),
                               bind (checkIn r), bind (checkOut r)]) rs\<rparr>"
  by (simp add: writeRecords_def csv_header_def row_field_def)

lemma download_found:
  "\<not> all_err env \<Longrightarrow> queryRange d (query_startDate q) (query_endDate q) \<noteq> [] \<Longrightarrow>
   \<not> write_err env \<Longrightarrow>
   get_download_report env q d file =
     (let written = \<lparr>titles = [''ID'', ''Employee Name'', ''Date'', ''Check In'', ''Check Out''],
          records = map (\<lambda>r. [SqlInt (row_id r), SqlText (employeeName r), SqlText (date r),
                               bind (checkIn r), bind (checkOut r)])
                      (queryRange d (query_startDate q) (query_endDate q))\<rparr>
      in if download_err env
         then (Some written, SendStatus 500 ''An error occurred while downloading the report.'')
         else (fs_unlink (unlink_err env) (Some written), Download written ''attendance_report.csv''))"
  by (simp add: get_download_report_def db_all_def writeRecords_table Let_def)

text \<open>
  C8. When the query reports no error: if the range holds no row, the response is 404 with
  the "No records found" message and the temporary file is left as it was (nothing is
  written); otherwise, when the write and the transfer do not fail, the file sent has the
  columns ID, Employee Name, Date, Check In, Check Out, in this order, with one record per
  row of the query, in the order of the query.
\<close>

theorem report_not_found_or_table:
  assumes "\<not> all_err env"
  shows "(queryRange d (query_startDate q) (query_endDate q) = [] \<longrightarrow>
            get_download_report env q d file
              = (file, SendStatus 404 ''No records found for the selected date range.''))
       \<and> (queryRange d (query_startDate q) (query_endDate q) \<noteq> [] \<and> \<not> write_err env
            \<and> \<not> download_err env \<longrightarrow>
            snd (get_download_report env q d file) =
              Download
                \<lparr>titles = [''ID'', ''Employee Name'', ''Date'', ''Check In'', ''Check Out''],
                 records = map (\<lambda>r. [SqlInt (row_id r), SqlText (employeeName r), SqlText (date r),
                                      bind (checkIn r), bind (checkOut r)])
                             (queryRange d (query_startDate q) (query_endDate q))\<rparr>
                ''attendance_report.csv'')"
  using download_not_found[OF assms] download_found[OF assms]
  by (simp add: Let_def)

theorem report_witness:
  "get_download_report quiet
      \<lparr>query_startDate = Some ''2024-02-01'', query_endDate = Some ''2024-02-29''\<rparr> example_week None
     = (None, SendStatus 404 ''No records found for the selected date range.'')
   \<and> snd (get_download_report quiet
      \<lparr>query_startDate = Some ''2024-01-01'', query_endDate = Some ''2024-01-02''\<rparr> example_week None)
     = Download
         \<lparr>titles = [''ID'', ''Employee Name'', ''Date'', ''Check In'', ''Check Out''],
          records =
            [[SqlInt 4, SqlText ''Alice'', SqlText ''2024-01-02'', SqlText ''9:00:00 AM'', SqlNull],
             [SqlInt 3, SqlText ''Alice'', SqlText ''2024-01-01'', SqlText ''9:45:00 AM'', SqlText ''6:00:00 PM''],
             [SqlInt 2, SqlText ''Bob'', SqlText ''2024-01-01'', SqlText ''9:30:00 AM'', SqlNull]]\<rparr>
         ''attendance_report.csv''"
proof -
  let ?q0 = "\<lparr>query_startDate = Some ''2024-02-01'', query_endDate = Some ''2024-02-29''\<rparr>"
  let ?q1 = "\<lparr>query_startDate = Some ''2024-01-01'', query_endDate = Some ''2024-01-02''\<rparr>"
  have e: "\<not> all_err quiet" "\<not> write_err quiet" "\<not> download_err quiet"
    by (simp_all add: quiet_def)
  have q0: "queryRange example_week (query_startDate ?q0) (query_endDate ?q0) = []"
    by (simp add: queryRange_def order_by_def example_week_def)
  have q1: "queryRange example_week (query_startDate ?q1) (query_endDate ?q1)
     = [rows example_week ! 3, rows example_week ! 2, rows example_week ! 1]"
    using example_week_query by simp
  have a: "get_download_report quiet ?q0 example_week None
     = (None, SendStatus 404 ''No records found for the selected date range.'')"
    using report_not_found_or_table[OF e(1), of example_week ?q0 None] q0 by blast
  have b: "snd (get_download_report quiet ?q1 example_week None) =
              Download
                \<lparr>titles = [''ID'', ''Employee Name'', ''Date'', ''Check In'', ''Check Out''],
                 records = map (\<lambda>r. [SqlInt (row_id r), SqlText (employeeName r), SqlText (date r),
                                      bind (checkIn r), bind (checkOut r)])
                             (queryRange example_week (query_startDate ?q1) (query_endDate ?q1))\<rparr>
                ''attendance_report.csv''"
    using report_not_found_or_table[OF e(1), of example_week ?q1 None] q1 e(2,3) by simp
  show ?thesis using a b unfolding q1 by (simp add: example_week_def)
qed

subsection \<open>C9: the temporary file after the transfer\<close>

text \<open>
  C9 says that the temporary file is removed after the hand-off on success and on failure.
  The handler removes it in the success branch of the callback of \<^verbatim>\<open>res.download\<close> only
  (lines 180-184); when the transfer fails it sends the 500 message and the file stays.
\<close>

theorem failed_download_leaves_the_file:
  "get_download_report (quiet\<lparr>download_err := True\<rparr>)
      \<lparr>query_startDate = Some ''2024-01-03'', query_endDate = Some ''2024-01-03''\<rparr> example_week None
     = (Some \<lparr>titles = [''ID'', ''Employee Name'', ''Date'', ''Check In'', ''Check Out''],
              records = [[SqlInt 5, SqlText ''Carol'', SqlText ''2024-01-03'', SqlNull,
                          SqlText ''5:45:00 PM'']]\<rparr>,
        SendStatus 500 ''An error occurred while downloading the report.'')"
  by (simp add: get_download_report_def db_all_def queryRange_def order_by_def writeRecords_def
      csv_header_def row_field_def quiet_def example_week_def)

text \<open>The success branch does remove the file (when \<^verbatim>\<open>fs.unlink\<close> itself does not fail).\<close>

lemma successful_download_removes_the_file:
  "\<not> all_err env \<Longrightarrow> \<not> write_err env \<Longrightarrow> \<not> download_err env \<Longrightarrow> \<not> unlink_err env \<Longrightarrow>
   queryRange d (query_startDate q) (query_endDate q) \<noteq> [] \<Longrightarrow>
   fst (get_download_report env q d file) = None"
  by (simp add: download_found fs_unlink_def Let_def)

theorem successful_download_witness:
  "fst (get_download_report quiet
      \<lparr>query_startDate = Some ''2024-01-03'', query_endDate = Some ''2024-01-03''\<rparr>
      example_week None) = None
   \<and> queryRange example_week (Some ''2024-01-03'') (Some ''2024-01-03'') = [rows example_week ! 4]"
proof -
  let ?q = "\<lparr>query_startDate = Some ''2024-01-03'', query_endDate = Some ''2024-01-03''\<rparr>"
  have e: "\<not> all_err quiet" "\<not> write_err quiet" "\<not> download_err quiet" "\<not> unlink_err quiet"
    by (simp_all add: quiet_def)
  have q: "queryRange example_week (Some ''2024-01-03'') (Some ''2024-01-03'')
             = [rows example_week ! 4]"
    by (simp add: queryRange_def order_by_def example_week_def)
  then have ne: "queryRange example_week (query_startDate ?q) (query_endDate ?q) \<noteq> []"
    by simp
  show ?thesis
    using successful_download_removes_the_file[OF e ne, of None] q by simp
qed

subsection \<open>C10: defaults of the bounds\<close>

lemma get_admin_bounds:
  "get_admin now io q d =
     (case db_all io d (Some (js_or (query_startDate q) (format_date now)))
                       (Some (js_or (query_endDate q) (format_date now))) of
        Inl err \<Rightarrow> SendStatus 500 ''An error occurred while fetching attendance records.''
      | Inr rs \<Rightarrow> RenderAdmin rs (Some (js_or (query_startDate q) (format_date now)))
                                (Some (js_or (query_endDate q) (format_date now))))"
proof (cases "query_startDate q")
  case None
  then show ?thesis by (simp add: get_admin_def Let_def split: sum.split)
next
  case s: (Some a)
  show ?thesis
  proof (cases "query_endDate q")
    case None
    then show ?thesis by (simp add: get_admin_def Let_def split: sum.split)
  next
    case (Some b)
    then show ?thesis using s by (simp add: get_admin_def Let_def split: sum.split)
  qed
qed

text \<open>
  C10. \<^verbatim>\<open>GET /admin\<close> queries with two defined bounds, each computed on its own: the
  start date of the request, or today's date when it is missing (or empty), and likewise
  the end date; it renders the rows of that range with these two bounds, or the 500
  message when the database fails. \<^verbatim>\<open>GET /download-report\<close> queries with the two
  parameters as they are: with a bound missing the query compares with NULL, matches
  nothing, and the response is 404; in general the response is 404 when the range of the
  parameters as supplied is empty, and otherwise the file sent holds the rows of that
  range.
\<close>

theorem admin_defaults_missing_bounds:
  "get_admin now False q d =
     RenderAdmin
       (queryRange d
          (Some (case query_startDate q of None \<Rightarrow> format_date now
                 | Some s \<Rightarrow> if s = [] then format_date now else s))
          (Some (case query_endDate q of None \<Rightarrow> format_date now
                 | Some e \<Rightarrow> if e = [] then format_date now else e)))
       (Some (case query_startDate q of None \<Rightarrow> format_date now
              | Some s \<Rightarrow> if s = [] then format_date now else s))
       (Some (case query_endDate q of None \<Rightarrow> format_date now
              | Some e \<Rightarrow> if e = [] then format_date now else e))
   \<and> get_admin now True q d
       = SendStatus 500 ''An error occurred while fetching attendance records.''
   \<and> (\<not> all_err env \<and> (query_startDate q = None \<or> query_endDate q = None) \<longrightarrow>
        get_download_report env q d file
          = (file, SendStatus 404 ''No records found for the selected date range.''))
   \<and> (\<not> all_err env \<and> queryRange d (query_startDate q) (query_endDate q) = [] \<longrightarrow>
        get_download_report env q d file
          = (file, SendStatus 404 ''No records found for the selected date range.''))
   \<and> (\<not> all_err env \<and> \<not> write_err env \<and> \<not> download_err env
        \<and> queryRange d (query_startDate q) (query_endDate q) \<noteq> [] \<longrightarrow>
        snd (get_download_report env q d file) =
          Download
            \<lparr>titles = [''ID'', ''Employee Name'', ''Date'', ''Check In'', ''Check Out''],
             records = map (\<lambda>r. [SqlInt (row_id r), SqlText (employeeName r), SqlText (date r),
                                  bind (checkIn r), bind (checkOut r)])
                         (queryRange d (query_startDate q) (query_endDate q))\<rparr>
            ''attendance_report.csv'')"
proof (intro conjI impI)
  have s: "js_or (query_startDate q) (format_date now)
      = (case query_startDate q of None \<Rightarrow> format_date now
         | Some s \<Rightarrow> if s = [] then format_date now else s)"
    by (cases "query_startDate q") simp_all
  have e: "js_or (query_endDate q) (format_date now)
      = (case query_endDate q of None \<Rightarrow> format_date now
         | Some e \<Rightarrow> if e = [] then format_date now else e)"
    by (cases "query_endDate q") simp_all
  show "get_admin now False q d =
     RenderAdmin
       (queryRange d
          (Some (case query_startDate q of None \<Rightarrow> format_date now
                 | Some s \<Rightarrow> if s = [] then format_date now else s))
          (Some (case query_endDate q of None \<Rightarrow> format_date now
                 | Some e \<Rightarrow> if e = [] then format_date now else e)))
       (Some (case query_startDate q of None \<Rightarrow> format_date now
              | Some s \<Rightarrow> if s = [] then format_date now else s))
       (Some (case query_endDate q of None \<Rightarrow> format_date now
              | Some e \<Rightarrow> if e = [] then format_date now else e))"
    unfolding s[symmetric] e[symmetric] by (simp add: get_admin_bounds db_all_def)
  show "get_admin now True q d
       = SendStatus 500 ''An error occurred while fetching attendance records.''"
    by (simp add: get_admin_bounds db_all_def)
next
  assume a: "\<not> all_err env \<and> (query_startDate q = None \<or> query_endDate q = None)"
  then have "queryRange d (query_startDate q) (query_endDate q) = []"
    by (auto simp add: queryRange_def order_by_def)
  then show "get_download_report env q d file
          = (file, SendStatus 404 ''No records found for the selected date range.'')"
    using a by (simp add: download_not_found)
next
  assume "\<not> all_err env \<and> queryRange d (query_startDate q) (query_endDate q) = []"
  then show "get_download_report env q d file
          = (file, SendStatus 404 ''No records found for the selected date range.'')"
    by (simp add: download_not_found)
next
  assume "\<not> all_err env \<and> \<not> write_err env \<and> \<not> download_err env
        \<and> queryRange d (query_startDate q) (query_endDate q) \<noteq> []"
  then show "snd (get_download_report env q d file) =
          Download
            \<lparr>titles = [''ID'', ''Employee Name'', ''Date'', ''Check In'', ''Check Out''],
             records = map (\<lambda>r. [SqlInt (row_id r), SqlText (employeeName r), SqlText (date r),
                                  bind (checkIn r), bind (checkOut r)])
                         (queryRange d (query_startDate q) (query_endDate q))\<rparr>
            ''attendance_report.csv''"
    by (simp add: download_found Let_def)
qed

theorem admin_defaults_witness:
  "get_admin (at_time 1 12 0) False
        \<lparr>query_startDate = None, query_endDate = Some ''2024-01-03''\<rparr> example_week
     = RenderAdmin
         [rows example_week ! 4, rows example_week ! 3, rows example_week ! 2,
          rows example_week ! 1]
         (Some ''2024-01-01'') (Some ''2024-01-03'')
   \<and> get_admin (at_time 1 12 0) False
        \<lparr>query_startDate = Some ''2023-12-31'', query_endDate = None\<rparr> example_week
     = RenderAdmin [rows example_week ! 2, rows example_week ! 1, rows example_week ! 0]
         (Some ''2023-12-31'') (Some ''2024-01-01'')
   \<and> get_admin (at_time 1 12 0) False
        \<lparr>query_startDate = Some ''2024-01-02'', query_endDate = Some ''2024-01-03''\<rparr> example_week
     = RenderAdmin [rows example_week ! 4, rows example_week ! 3]
         (Some ''2024-01-02'') (Some ''2024-01-03'')
   \<and> get_download_report quiet
        \<lparr>query_startDate = None, query_endDate = Some ''2024-01-03''\<rparr> example_week None
     = (None, SendStatus 404 ''No records found for the selected date range.'')
   \<and> snd (get_download_report quiet
        \<lparr>query_startDate = Some ''2024-01-03'', query_endDate = Some ''2024-01-03''\<rparr>
        example_week None)
     = Download
         \<lparr>titles = [''ID'', ''Employee Name'', ''Date'', ''Check In'', ''Check Out''],
          records = [[SqlInt 5, SqlText ''Carol'', SqlText ''2024-01-03'', SqlNull,
                      SqlText ''5:45:00 PM'']]\<rparr>
         ''attendance_report.csv''"
proof -
  let ?now = "at_time 1 12 0"
  let ?q0 = "\<lparr>query_startDate = None, query_endDate = Some ''2024-01-03''\<rparr>"
  let ?q1 = "\<lparr>query_startDate = Some ''2023-12-31'', query_endDate = None\<rparr>"
  let ?q2 = "\<lparr>query_startDate = Some ''2024-01-02'', query_endDate = Some ''2024-01-03''\<rparr>"
  let ?q3 = "\<lparr>query_startDate = Some ''2024-01-03'', query_endDate = Some ''2024-01-03''\<rparr>"
  have today: "format_date ?now = ''2024-01-01''"
    by (simp add: format_date_pad at_time_def pad2_def pad4_def digit_char_def)
  have e: "\<not> all_err quiet" "\<not> write_err quiet" "\<not> download_err quiet"
    by (simp_all add: quiet_def)
  have r0: "queryRange example_week (Some ''2024-01-01'') (Some ''2024-01-03'')
      = [rows example_week ! 4, rows example_week ! 3, rows example_week ! 2,
         rows example_week ! 1]"
    by (simp add: queryRange_def order_by_def row_le_def example_week_def)
  have r1: "queryRange example_week (Some ''2023-12-31'') (Some ''2024-01-01'')
      = [rows example_week ! 2, rows example_week ! 1, rows example_week ! 0]"
    by (simp add: queryRange_def order_by_def row_le_def example_week_def)
  have r2: "queryRange example_week (Some ''2024-01-02'') (Some ''2024-01-03'')
      = [rows example_week ! 4, rows example_week ! 3]"
    by (simp add: queryRange_def order_by_def row_le_def example_week_def)
  have r3: "queryRange example_week (Some ''2024-01-03'') (Some ''2024-01-03'')
      = [rows example_week ! 4]"
    by (simp add: queryRange_def order_by_def row_le_def example_week_def)
  have a0: "get_admin ?now False ?q0 example_week
     = RenderAdmin
         [rows example_week ! 4, rows example_week ! 3, rows example_week ! 2,
          rows example_week ! 1]
         (Some ''2024-01-01'') (Some ''2024-01-03'')"
    using admin_defaults_missing_bounds[of ?now ?q0 example_week quiet None]
    unfolding today by (simp add: r0)
  have a1: "get_admin ?now False ?q1 example_week
     = RenderAdmin [rows example_week ! 2, rows example_week ! 1, rows example_week ! 0]
         (Some ''2023-12-31'') (Some ''2024-01-01'')"
    using admin_defaults_missing_bounds[of ?now ?q1 example_week quiet None]
    unfolding today by (simp add: r1)
  have a2: "get_admin ?now False ?q2 example_week
     = RenderAdmin [rows example_week ! 4, rows example_week ! 3]
         (Some ''2024-01-02'') (Some ''2024-01-03'')"
    using admin_defaults_missing_bounds[of ?now ?q2 example_week quiet None]
    unfolding today by (simp add: r2)
  have d0: "get_download_report quiet ?q0 example_week None
     = (None, SendStatus 404 ''No records found for the selected date range.'')"
    using admin_defaults_missing_bounds[of ?now ?q0 example_week quiet None] e by simp
  have d3: "snd (get_download_report quiet ?q3 example_week None)
     = Download
         \<lparr>titles = [''ID'', ''Employee Name'', ''Date'', ''Check In'', ''Check Out''],
          records = [[SqlInt 5, SqlText ''Carol'', SqlText ''2024-01-03'', SqlNull,
                      SqlText ''5:45:00 PM'']]\<rparr>
         ''attendance_report.csv''"
    using admin_defaults_missing_bounds[of ?now ?q3 example_week quiet None] e
    unfolding range_query.simps r3 by (simp add: example_week_def)
  show ?thesis using a0 a1 a2 d0 d3 by simp
qed

end
